theory Spec2Isabelle
  imports Complex_Main
begin

section \<open>Tempo estimation (Deck.detectBPM)\<close>

text \<open>
  The audio engine is TypeScript on top of an audio-graph runtime. JavaScript numbers are
  modelled as follows: array indices and peak positions are naturals, differences of peak
  positions are integers, sample values, tempi and rates are reals, with exact comparison
  and division. An audio buffer is the pair of its first channel (a list of samples) and
  its sample rate, an integer number of samples per second.
\<close>

record audio_buffer =
  channelData :: "real list"
  sampleRate :: nat

definition step :: nat where
  "step = 4"

definition threshold :: real where
  "threshold = 6 / 10"

text \<open>
  The peak-picking loop. \<open>i\<close> is the loop variable, \<open>peaks\<close> the array being filled:
  \<^verbatim>\<open>for (let i = 0; i < channelData.length; i += step) {
      if (channelData[i] > threshold) { peaks.push(i); i += Math.floor(sampleRate / 4); } }\<close>
\<close>

function peak_loop :: "real list \<Rightarrow> nat \<Rightarrow> nat \<Rightarrow> nat list \<Rightarrow> nat list" where
  "peak_loop cd sr i peaks =
     (if i < length cd then
        (if cd ! i > threshold
         then peak_loop cd sr (i + sr div 4 + step) (peaks @ [i])
         else peak_loop cd sr (i + step) peaks)
      else peaks)"
  by pat_completeness auto
termination
  by (relation "measure (\<lambda>(cd, sr, i, peaks). length cd - i)") (auto simp: step_def)

declare peak_loop.simps [simp del]

text \<open>The values the loop variable takes at the head of the loop body, in order.\<close>

function scan_positions :: "real list \<Rightarrow> nat \<Rightarrow> nat \<Rightarrow> nat list" where
  "scan_positions cd sr i =
     (if i < length cd then
        i # scan_positions cd sr (if cd ! i > threshold then i + sr div 4 + step else i + step)
      else [])"
  by pat_completeness auto
termination
  by (relation "measure (\<lambda>(cd, sr, i). length cd - i)") (auto simp: step_def)

declare scan_positions.simps [simp del]

text \<open>
  \<^verbatim>\<open>for (let i = 1; i < peaks.length; i++) intervals.push(peaks[i] - peaks[i - 1]);\<close>
\<close>

definition intervals_of :: "nat list \<Rightarrow> int list" where
  "intervals_of peaks = map (\<lambda>i. int (peaks ! i) - int (peaks ! (i - 1))) [1..<length peaks]"

text \<open>\<^verbatim>\<open>Math.round\<close> rounds to the nearest integer, a half upwards.\<close>

definition Math_round :: "real \<Rightarrow> int" where
  "Math_round x = \<lfloor>x + 1 / 2\<rfloor>"

definition quantize :: "int \<Rightarrow> int" where
  "quantize interval = Math_round (real_of_int interval / 100) * 100"

text \<open>
  The histogram \<^verbatim>\<open>groups\<close> is a JavaScript object. It is modelled as the list of its
  properties in the order of their creation; \<^verbatim>\<open>groups[rounded] = (groups[rounded] || 0) + 1\<close>
  adds one to an existing property in place and appends a new property with count one.
\<close>

fun bump :: "int \<Rightarrow> (int \<times> nat) list \<Rightarrow> (int \<times> nat) list" where
  "bump k [] = [(k, 1)]"
| "bump k ((k', c) # groups) =
     (if k = k' then (k', c + 1) # groups else (k', c) # bump k groups)"

definition group_intervals :: "int list \<Rightarrow> (int \<times> nat) list" where
  "group_intervals intervals = foldl (\<lambda>groups interval. bump (quantize interval) groups) [] intervals"

definition lookup :: "(int \<times> nat) list \<Rightarrow> int \<Rightarrow> nat" where
  "lookup groups k = (case map_of groups k of None \<Rightarrow> 0 | Some c \<Rightarrow> c)"

text \<open>
  \<^verbatim>\<open>for (const interval in groups)\<close> visits the properties of an object in the order of
  the language standard: first the keys that are array indices (the integers from 0 to
  \<open>2\<^sup>3\<^sup>2 - 2\<close>) in ascending numeric order, then the other keys in the order of their
  creation.
\<close>

definition is_array_index :: "int \<Rightarrow> bool" where
  "is_array_index k = (0 \<le> k \<and> k < 4294967295)"

definition for_in_keys :: "(int \<times> nat) list \<Rightarrow> int list" where
  "for_in_keys groups =
     sort (filter is_array_index (map fst groups)) @
     filter (\<lambda>k. \<not> is_array_index k) (map fst groups)"

text \<open>
  The selection loop over the keys, with the state \<open>(maxCount, bestInterval)\<close>:
  \<^verbatim>\<open>if (groups[interval] > maxCount) { maxCount = groups[interval]; bestInterval = parseInt(interval); }\<close>
  A key is the decimal string of an integer, which \<^verbatim>\<open>parseInt\<close> reads back.
\<close>

fun select_loop :: "(int \<times> nat) list \<Rightarrow> int list \<Rightarrow> nat \<times> int \<Rightarrow> nat \<times> int" where
  "select_loop groups [] (maxCount, bestInterval) = (maxCount, bestInterval)"
| "select_loop groups (interval # keys) (maxCount, bestInterval) =
     (if lookup groups interval > maxCount
      then select_loop groups keys (lookup groups interval, interval)
      else select_loop groups keys (maxCount, bestInterval))"

definition best_interval :: "(int \<times> nat) list \<Rightarrow> int" where
  "best_interval groups = snd (select_loop groups (for_in_keys groups) (0, 0))"

definition find_peaks :: "audio_buffer \<Rightarrow> nat list" where
  "find_peaks buffer = peak_loop (channelData buffer) (sampleRate buffer) 0 []"

definition detectBPM :: "audio_buffer \<Rightarrow> real" where
  "detectBPM buffer =
     (let peaks = find_peaks buffer in
      if length peaks < 10 then 0
      else
        let bestInterval = best_interval (group_intervals (intervals_of peaks)) in
        if bestInterval = 0 then 0
        else
          let bpm = (60 * real (sampleRate buffer)) / (real_of_int bestInterval * real step) in
          if bpm < 70 then bpm * 2
          else if bpm > 180 then bpm / 2
          else real_of_int (Math_round bpm))"

text \<open>
  A synthetic test signal: ten seconds of mono audio at 44.1 kHz, silent except for a click
  of \<open>w\<close> full-scale samples every half second (every 22050 samples), the rhythm of a
  120 BPM track.
\<close>

definition click_track :: "nat \<Rightarrow> audio_buffer" where
  "click_track w = \<lparr>channelData = map (\<lambda>i. if i mod 22050 < w then 1 else 0) [0..<441000],
     sampleRate = 44100\<rparr>"

text \<open>
  A second test signal at 44.1 kHz: single full-scale samples at eleven positions, the first
  five gaps 22053 samples long and the last five 22049 samples long.
\<close>

definition tie_peaks :: "nat list" where
  "tie_peaks = [0, 22053, 44106, 66159, 88212, 110265, 132314, 154363, 176412, 198461, 220510]"

definition tie_track :: audio_buffer where
  "tie_track = \<lparr>channelData = map (\<lambda>i. if i \<in> set tie_peaks then 1 else 0) [0..<220511],
     sampleRate = 44100\<rparr>"

section \<open>Voice unit (VoiceEngine)\<close>

text \<open>
  The fields of the class and the parameters of the audio nodes it writes. The nodes
  themselves belong to the audio-graph runtime; of the microphone and the player only what
  the class reads is kept: whether the microphone is open (\<^verbatim>\<open>mic.state === 'started'\<close>)
  and whether the player holds a buffer (\<^verbatim>\<open>player.loaded\<close>). \<open>state_changes\<close> counts the
  \<^verbatim>\<open>state-change\<close> events dispatched so far.
\<close>

record VoiceEngine =
  mic_started :: bool
  player_loaded :: bool
  player_loop :: bool
  player_playbackRate :: real
  pitchShift_pitch :: real
  distortion_distortion :: real
  bitCrusher_bits :: real
  vibrato_frequency :: real
  vibrato_depth :: real
  reverb_decay :: real
  reverb_wet :: real
  delay_wet :: real
  delay_feedback :: real
  eq_high :: real
  eq_mid :: real
  eq_low :: real
  gain_gain :: real
  isRecording :: bool
  isPlaying :: bool
  currentPreset :: int
  state_changes :: nat

definition dispatch_state_change :: "VoiceEngine \<Rightarrow> VoiceEngine" where
  "dispatch_state_change v = v\<lparr>state_changes := state_changes v + 1\<rparr>"

definition resetFX :: "VoiceEngine \<Rightarrow> VoiceEngine" where
  "resetFX v = v\<lparr>
     pitchShift_pitch := 0,
     distortion_distortion := 0,
     bitCrusher_bits := 16,
     vibrato_depth := 0,
     reverb_wet := 2 / 10,
     reverb_decay := 15 / 10,
     delay_wet := 0,
     eq_high := 0,
     eq_mid := 0,
     eq_low := 0,
     player_playbackRate := 1\<rparr>"

text \<open>The \<^verbatim>\<open>switch\<close> of \<^verbatim>\<open>setPreset\<close>: the values one preset writes after the reset.\<close>

definition preset_overlay :: "int \<Rightarrow> VoiceEngine \<Rightarrow> VoiceEngine" where
  "preset_overlay index v =
     (if index = 0 then v\<lparr>eq_high := 6, eq_low := - 5, distortion_distortion := 5 / 100\<rparr>
      else if index = 1 then v\<lparr>pitchShift_pitch := - 12, distortion_distortion := 2 / 10\<rparr>
      else if index = 2 then v\<lparr>pitchShift_pitch := 12, player_playbackRate := 1\<rparr>
      else if index = 3 then
        v\<lparr>pitchShift_pitch := - 7, distortion_distortion := 8 / 10, reverb_wet := 5 / 10\<rparr>
      else if index = 4 then
        v\<lparr>bitCrusher_bits := 4, vibrato_frequency := 50, vibrato_depth := 5 / 10\<rparr>
      else if index = 5 then
        v\<lparr>pitchShift_pitch := 7, reverb_decay := 6, reverb_wet := 8 / 10,
          delay_wet := 5 / 10, delay_feedback := 6 / 10\<rparr>
      else if index = 6 then
        v\<lparr>eq_high := - 20, eq_low := - 20, eq_mid := 10, distortion_distortion := 4 / 10\<rparr>
      else v)"

definition setPreset :: "int \<Rightarrow> VoiceEngine \<Rightarrow> VoiceEngine" where
  "setPreset index v =
     dispatch_state_change (preset_overlay index (resetFX (v\<lparr>currentPreset := index\<rparr>)))"

text \<open>
  The constructor builds the nodes and selects preset 0. The pitch shifter, the wet level
  of the delay and the rate of the player start at the defaults of the runtime (0, 1
  and 1); the reset inside \<^verbatim>\<open>setPreset(0)\<close> overwrites all three.
\<close>

definition VoiceEngine_nodes :: VoiceEngine where
  "VoiceEngine_nodes = \<lparr>
     mic_started = False,
     player_loaded = False,
     player_loop = True,
     player_playbackRate = 1,
     pitchShift_pitch = 0,
     distortion_distortion = 0,
     bitCrusher_bits = 16,
     vibrato_frequency = 0,
     vibrato_depth = 0,
     reverb_decay = 15 / 10,
     reverb_wet = 2 / 10,
     delay_wet = 1,
     delay_feedback = 0,
     eq_high = 0,
     eq_mid = 0,
     eq_low = 0,
     gain_gain = 1,
     isRecording = False,
     isPlaying = False,
     currentPreset = 0,
     state_changes = 0\<rparr>"

definition VoiceEngine_new :: VoiceEngine where
  "VoiceEngine_new = setPreset 0 VoiceEngine_nodes"

text \<open>
  The asynchronous calls into the runtime can fail. Their outcome is an argument of the
  operation: whether \<^verbatim>\<open>mic.open()\<close> succeeds, whether \<^verbatim>\<open>player.load(url)\<close> succeeds, and
  for \<^verbatim>\<open>recorder.stop()\<close> either a failure or the size of the recorded blob.
\<close>

definition startMic :: "bool \<Rightarrow> VoiceEngine \<Rightarrow> VoiceEngine" where
  "startMic open_ok v =
     (if \<not> mic_started v then (if open_ok then v\<lparr>mic_started := True\<rparr> else v) else v)"

definition startRecording :: "bool \<Rightarrow> VoiceEngine \<Rightarrow> VoiceEngine" where
  "startRecording open_ok v =
     (let v1 = startMic open_ok v in
      if mic_started v1 then dispatch_state_change (v1\<lparr>isRecording := True\<rparr>) else v1)"

datatype recorder_stop = StopFails | Blob nat bool

definition stopRecording :: "recorder_stop \<Rightarrow> VoiceEngine \<Rightarrow> VoiceEngine" where
  "stopRecording outcome v =
     (if \<not> isRecording v then v
      else case outcome of
        StopFails \<Rightarrow> dispatch_state_change (v\<lparr>isRecording := False\<rparr>)
      | Blob blob_size load_ok \<Rightarrow>
          (let v1 = v\<lparr>isRecording := False\<rparr>;
               v2 = (if blob_size > 0 then (if load_ok then v1\<lparr>player_loaded := True\<rparr> else v1) else v1)
           in dispatch_state_change v2))"

definition play :: "VoiceEngine \<Rightarrow> VoiceEngine" where
  "play v = (if player_loaded v then dispatch_state_change (v\<lparr>isPlaying := True\<rparr>) else v)"

definition stop :: "VoiceEngine \<Rightarrow> VoiceEngine" where
  "stop v = dispatch_state_change (v\<lparr>isPlaying := False\<rparr>)"

definition loadFile :: "bool \<Rightarrow> VoiceEngine \<Rightarrow> VoiceEngine" where
  "loadFile load_ok v =
     (if load_ok then dispatch_state_change (v\<lparr>player_loaded := True\<rparr>) else v)"

definition toggleLoop :: "bool \<Rightarrow> VoiceEngine \<Rightarrow> VoiceEngine" where
  "toggleLoop loop v = v\<lparr>player_loop := loop\<rparr>"

text \<open>\<^verbatim>\<open>setVolume\<close> ramps the gain to the value it is given; the target of the ramp is kept.\<close>

definition setVolume :: "real \<Rightarrow> VoiceEngine \<Rightarrow> VoiceEngine" where
  "setVolume val v = v\<lparr>gain_gain := val\<rparr>"

definition setPlaybackRate :: "real \<Rightarrow> VoiceEngine \<Rightarrow> VoiceEngine" where
  "setPlaybackRate rate v = v\<lparr>player_playbackRate := rate\<rparr>"




section \<open>Decks and master tempo (Deck, AudioEngine)\<close>

text \<open>
  A deck reads and writes the master tempo through its reference to the engine, and the
  engine owns both decks, so the methods of a deck that touch the master tempo are
  functions on the engine that take the deck's name.
\<close>

record Deck =
  isPlaying :: bool
  bpm :: real
  playbackRate :: real
  isSynced :: bool
  player_rate :: real

record AudioEngine =
  masterBpm :: real
  deckA :: Deck
  deckB :: Deck

datatype deck_id = A | B

fun deck :: "deck_id \<Rightarrow> AudioEngine \<Rightarrow> Deck" where
  "deck A e = deckA e"
| "deck B e = deckB e"

fun put_deck :: "deck_id \<Rightarrow> Deck \<Rightarrow> AudioEngine \<Rightarrow> AudioEngine" where
  "put_deck A d e = e\<lparr>deckA := d\<rparr>"
| "put_deck B d e = e\<lparr>deckB := d\<rparr>"

definition Deck_new :: Deck where
  "Deck_new = \<lparr>isPlaying = False, bpm = 0, playbackRate = 1, isSynced = False, player_rate = 1\<rparr>"

definition AudioEngine_new :: AudioEngine where
  "AudioEngine_new = \<lparr>masterBpm = 120, deckA = Deck_new, deckB = Deck_new\<rparr>"

definition setRate :: "real \<Rightarrow> Deck \<Rightarrow> Deck" where
  "setRate rate d = d\<lparr>playbackRate := rate, player_rate := rate\<rparr>"

definition syncToMaster :: "deck_id \<Rightarrow> AudioEngine \<Rightarrow> AudioEngine" where
  "syncToMaster i e =
     (if bpm (deck i e) > 0 \<and> masterBpm e > 0
      then put_deck i (setRate (masterBpm e / bpm (deck i e)) (deck i e)) e
      else e)"

definition setMasterBpm :: "real \<Rightarrow> AudioEngine \<Rightarrow> AudioEngine" where
  "setMasterBpm b e =
     (let e1 = e\<lparr>masterBpm := b\<rparr>;
          e2 = (if isSynced (deckA e1) then syncToMaster A e1 else e1)
      in if isSynced (deckB e2) then syncToMaster B e2 else e2)"

definition toggleSync :: "deck_id \<Rightarrow> AudioEngine \<Rightarrow> AudioEngine" where
  "toggleSync i e =
     (let e1 = put_deck i ((deck i e)\<lparr>isSynced := \<not> isSynced (deck i e)\<rparr>) e in
      if isSynced (deck i e1) then syncToMaster i e1
      else put_deck i (setRate 1 (deck i e1)) e1)"

text \<open>
  \<^verbatim>\<open>playPause\<close> reads the state of the player and starts or stops it; both belong to the
  runtime, so whether the player is started and whether \<^verbatim>\<open>player.start()\<close> returns
  without an exception are arguments.
\<close>

definition playPause :: "deck_id \<Rightarrow> bool \<Rightarrow> bool \<Rightarrow> AudioEngine \<Rightarrow> AudioEngine" where
  "playPause i started start_ok e =
     (if started then put_deck i ((deck i e)\<lparr>isPlaying := False\<rparr>) e
      else
        let e1 = (if isSynced (deck i e) then syncToMaster i e else e) in
        if start_ok then put_deck i ((deck i e1)\<lparr>isPlaying := True\<rparr>) e1 else e1)"

text \<open>
  \<^verbatim>\<open>loadTrack\<close>: the decoded buffer when \<^verbatim>\<open>player.load(url)\<close> succeeds, \<open>None\<close> when it
  fails (the exception is caught and logged, nothing is written). The \<^verbatim>\<open>loaded\<close> event
  carries the stored tempo and changes no field.
\<close>

definition loadTrack :: "deck_id \<Rightarrow> audio_buffer option \<Rightarrow> AudioEngine \<Rightarrow> AudioEngine" where
  "loadTrack i loaded e =
     (case loaded of
        None \<Rightarrow> e
      | Some buffer \<Rightarrow>
          (let e1 = put_deck i ((deck i e)\<lparr>bpm := detectBPM buffer\<rparr>) e in
           if masterBpm e1 = 120 \<and> bpm (deck i e1) > 0
           then setMasterBpm (bpm (deck i e1)) e1
           else e1))"

datatype engine_op =
  SetMasterBpm real
| LoadTrack deck_id "audio_buffer option"
| PlayPause deck_id bool bool
| ToggleSync deck_id
| SetRate deck_id real

fun engine_step :: "AudioEngine \<Rightarrow> engine_op \<Rightarrow> AudioEngine" where
  "engine_step e (SetMasterBpm b) = setMasterBpm b e"
| "engine_step e (LoadTrack i loaded) = loadTrack i loaded e"
| "engine_step e (PlayPause i started start_ok) = playPause i started start_ok e"
| "engine_step e (ToggleSync i) = toggleSync i e"
| "engine_step e (SetRate i rate) = put_deck i (setRate rate (deck i e)) e"

text \<open>The contract of the mixer: a master tempo that is set is positive.\<close>

fun op_ok :: "engine_op \<Rightarrow> bool" where
  "op_ok (SetMasterBpm b) = (b > 0)"
| "op_ok _ = True"

definition engine_run :: "engine_op list \<Rightarrow> AudioEngine" where
  "engine_run ops = foldl engine_step AudioEngine_new ops"

section \<open>Degenerate inputs of the tempo estimate\<close>

lemma peak_loop_Nil: "peak_loop [] sr i peaks = peaks"
  by (simp add: peak_loop.simps)

lemma peak_loop_quiet:
  "\<forall>x\<in>set cd. \<not> x > threshold \<Longrightarrow> peak_loop cd sr i peaks = peaks"
proof (induction cd sr i peaks rule: peak_loop.induct)
  case (1 cd sr i peaks)
  show ?case
  proof (cases "i < length cd")
    case True
    then have "\<not> cd ! i > threshold" using "1.prems" by simp
    with True "1.IH"(2) "1.prems" show ?thesis
      by (subst peak_loop.simps) simp
  next
    case False
    then show ?thesis by (subst peak_loop.simps) simp
  qed
qed

text \<open>
  Claim C9. \<open>detectBPM\<close> is a total function: the peak loop terminates (its position
  grows by at least the stride in every round), every array read of the later loops is in
  range, and no operation of it can throw. On every buffer with fewer than ten detected
  peaks the estimate is exactly 0; a buffer of length zero and a buffer in which no sample
  is above the threshold in magnitude (silence) are such buffers.
\<close>

theorem detectBPM_degenerate:
  "(length (find_peaks buffer) < 10 \<longrightarrow> detectBPM buffer = 0) \<and>
   (channelData buffer = [] \<longrightarrow> detectBPM buffer = 0) \<and>
   ((\<forall>x\<in>set (channelData buffer). \<bar>x\<bar> \<le> threshold) \<longrightarrow> detectBPM buffer = 0)"
proof -
  have few: "detectBPM buffer = 0" if "length (find_peaks buffer) < 10"
    using that by (simp add: detectBPM_def Let_def)
  have quiet: "find_peaks buffer = []" if "\<forall>x\<in>set (channelData buffer). \<bar>x\<bar> \<le> threshold"
  proof -
    from that have "\<forall>x\<in>set (channelData buffer). \<not> x > threshold" by fastforce
    then show ?thesis unfolding find_peaks_def by (rule peak_loop_quiet)
  qed
  have empty: "find_peaks buffer = []" if "channelData buffer = []"
    using that by (simp add: find_peaks_def peak_loop_Nil)
  show ?thesis using few quiet empty by simp
qed

text \<open>
  Witness for C9: a buffer with a single peak, the empty buffer and six samples of silence.
\<close>

theorem detectBPM_degenerate_witness:
  "length (find_peaks \<lparr>channelData = [1, 0, 0, 0, 1, 0, 0, 0, 9 / 10], sampleRate = 44100\<rparr>) < 10 \<and>
   detectBPM \<lparr>channelData = [1, 0, 0, 0, 1, 0, 0, 0, 9 / 10], sampleRate = 44100\<rparr> = 0 \<and>
   detectBPM \<lparr>channelData = [], sampleRate = 44100\<rparr> = 0 \<and>
   detectBPM \<lparr>channelData = [0, 0, 0, 0, 0, 0], sampleRate = 44100\<rparr> = 0"
proof -
  have p: "length (find_peaks \<lparr>channelData = [1, 0, 0, 0, 1, 0, 0, 0, 9 / 10], sampleRate = 44100\<rparr>) < 10"
    by (simp add: find_peaks_def peak_loop.simps threshold_def step_def)
  show ?thesis
    using p detectBPM_degenerate [of "\<lparr>channelData = [1, 0, 0, 0, 1, 0, 0, 0, 9 / 10], sampleRate = 44100\<rparr>"]
      detectBPM_degenerate [of "\<lparr>channelData = [], sampleRate = 44100\<rparr>"]
      detectBPM_degenerate [of "\<lparr>channelData = [0, 0, 0, 0, 0, 0], sampleRate = 44100\<rparr>"]
    by (simp add: threshold_def)
qed

section \<open>Peak picking\<close>

text \<open>
  The peaks are the scan positions whose sample is above the threshold, in scan order.
\<close>

lemma peak_loop_filter:
  "peak_loop cd sr i peaks = peaks @ filter (\<lambda>j. cd ! j > threshold) (scan_positions cd sr i)"
proof (induction cd sr i peaks rule: peak_loop.induct)
  case (1 cd sr i peaks)
  show ?case
  proof (cases "i < length cd")
    case False
    then show ?thesis by (simp add: peak_loop.simps [of cd sr i] scan_positions.simps [of cd sr i])
  next
    case True
    show ?thesis
    proof (cases "cd ! i > threshold")
      case True
      with \<open>i < length cd\<close> "1.IH"(1) show ?thesis
        by (simp add: peak_loop.simps [of cd sr i] scan_positions.simps [of cd sr i])
    next
      case False
      with \<open>i < length cd\<close> "1.IH"(2) show ?thesis
        by (simp add: peak_loop.simps [of cd sr i] scan_positions.simps [of cd sr i])
    qed
  qed
qed

lemma scan_positions_bounds:
  "p \<in> set (scan_positions cd sr i) \<Longrightarrow> i \<le> p \<and> p < length cd"
proof (induction cd sr i rule: scan_positions.induct)
  case (1 cd sr i)
  show ?case
  proof (cases "i < length cd")
    case False
    with "1.prems" show ?thesis by (simp add: scan_positions.simps [of cd sr i])
  next
    case True
    with "1.prems" have "p = i \<or>
        p \<in> set (scan_positions cd sr (if cd ! i > threshold then i + sr div 4 + step else i + step))"
      by (simp add: scan_positions.simps [of cd sr i])
    then show ?thesis
    proof
      assume "p = i" with True show ?thesis by simp
    next
      assume "p \<in> set (scan_positions cd sr (if cd ! i > threshold then i + sr div 4 + step else i + step))"
      with "1.IH" True have "(if cd ! i > threshold then i + sr div 4 + step else i + step) \<le> p \<and> p < length cd"
        by blast
      then show ?thesis by (simp split: if_splits)
    qed
  qed
qed

lemma find_peaks_bound: "p \<in> set (find_peaks buffer) \<Longrightarrow> p < length (channelData buffer)"
  using scan_positions_bounds [of p "channelData buffer" "sampleRate buffer" 0]
  by (simp add: find_peaks_def peak_loop_filter)

lemma peak_loop_gap:
  assumes "sorted_wrt (\<lambda>p q. p + sr div 4 + step \<le> q) peaks"
    and "\<forall>p\<in>set peaks. p + sr div 4 + step \<le> i"
  shows "sorted_wrt (\<lambda>p q. p + sr div 4 + step \<le> q) (peak_loop cd sr i peaks)"
  using assms
proof (induction cd sr i peaks rule: peak_loop.induct)
  case (1 cd sr i peaks)
  show ?case
  proof (cases "i < length cd")
    case False
    with "1.prems" show ?thesis by (simp add: peak_loop.simps [of cd sr i])
  next
    case True
    show ?thesis
    proof (cases "cd ! i > threshold")
      case True
      have "sorted_wrt (\<lambda>p q. p + sr div 4 + step \<le> q) (peaks @ [i])"
        using "1.prems" by (simp add: sorted_wrt_append)
      moreover have "\<forall>p\<in>set (peaks @ [i]). p + sr div 4 + step \<le> i + sr div 4 + step"
        using "1.prems"(2) by auto
      ultimately have "sorted_wrt (\<lambda>p q. p + sr div 4 + step \<le> q)
          (peak_loop cd sr (i + sr div 4 + step) (peaks @ [i]))"
        using "1.IH"(1) \<open>i < length cd\<close> True by blast
      with True \<open>i < length cd\<close> show ?thesis by (simp add: peak_loop.simps [of cd sr i])
    next
      case False
      have "\<forall>p\<in>set peaks. p + sr div 4 + step \<le> i + step"
        using "1.prems"(2) by auto
      with "1.prems"(1) have "sorted_wrt (\<lambda>p q. p + sr div 4 + step \<le> q)
          (peak_loop cd sr (i + step) peaks)"
        using "1.IH"(2) \<open>i < length cd\<close> False by blast
      with False \<open>i < length cd\<close> show ?thesis by (simp add: peak_loop.simps [of cd sr i])
    qed
  qed
qed

text \<open>
  Claim C6, as amended. The comparison of the loop is signed (\<^verbatim>\<open>channelData[i] > threshold\<close>,
  no absolute value): a position is recorded as a peak exactly when the scan visits it and
  the sample there, with its sign, is greater than 0.6. After a peak the scan moves on by
  \<open>\<lfloor>sampleRate / 4\<rfloor>\<close> samples plus the stride, so two peaks are at least that far apart.
\<close>

theorem peak_iff_signed_sample:
  "(p \<in> set (find_peaks buffer) \<longleftrightarrow>
      p \<in> set (scan_positions (channelData buffer) (sampleRate buffer) 0) \<and>
      channelData buffer ! p > threshold) \<and>
   sorted_wrt (\<lambda>p q. p + sampleRate buffer div 4 + step \<le> q) (find_peaks buffer)"
proof -
  have "sorted_wrt (\<lambda>p q. p + sampleRate buffer div 4 + step \<le> q) (find_peaks buffer)"
    unfolding find_peaks_def by (rule peak_loop_gap) simp_all
  then show ?thesis by (simp add: find_peaks_def peak_loop_filter)
qed

text \<open>
  Witness for C6: in the buffer \<open>[-1, 0, 0, 0, 1]\<close> both positions 0 and 4 are scanned;
  position 4 is a peak and position 0 is not.
\<close>

theorem peak_iff_signed_sample_witness:
  "4 \<in> set (find_peaks \<lparr>channelData = [- 1, 0, 0, 0, 1], sampleRate = 44100\<rparr>) \<and>
   0 \<notin> set (find_peaks \<lparr>channelData = [- 1, 0, 0, 0, 1], sampleRate = 44100\<rparr>) \<and>
   0 \<in> set (scan_positions [- 1, 0, 0, 0, 1] 44100 0) \<and>
   4 \<in> set (scan_positions [- 1, 0, 0, 0, 1] 44100 0)"
proof -
  have a: "scan_positions [- 1, 0, 0, 0, 1] 44100 0 = [0, 4]"
    by (simp add: scan_positions.simps threshold_def step_def)
  show ?thesis
    using a peak_iff_signed_sample [of 4 "\<lparr>channelData = [- 1, 0, 0, 0, 1], sampleRate = 44100\<rparr>"]
      peak_iff_signed_sample [of 0 "\<lparr>channelData = [- 1, 0, 0, 0, 1], sampleRate = 44100\<rparr>"]
    by (simp add: threshold_def)
qed

text \<open>
  Counterexample to C6 as stated: the sample at position 0 has magnitude 1, above 0.6, and is
  scanned, yet it is not a peak; a buffer of negative full-scale samples has no peak at all.
\<close>

theorem absolute_amplitude_counterexample:
  "\<bar>channelData \<lparr>channelData = [- 1, 0, 0, 0, 1], sampleRate = 44100\<rparr> ! 0\<bar> > threshold \<and>
   0 \<in> set (scan_positions [- 1, 0, 0, 0, 1] 44100 0) \<and>
   0 \<notin> set (find_peaks \<lparr>channelData = [- 1, 0, 0, 0, 1], sampleRate = 44100\<rparr>) \<and>
   find_peaks \<lparr>channelData = [- 1, - 1, - 1, - 1, - 1, - 1, - 1, - 1], sampleRate = 44100\<rparr> = []"
  by (simp add: find_peaks_def peak_loop.simps scan_positions.simps threshold_def step_def)

section \<open>The estimate of a click track\<close>

text \<open>
  Between two peaks the loop only moves on, so the peaks of a concrete buffer can be read
  off without running the loop sample by sample.
\<close>

lemma peak_loop_skip:
  "\<forall>k<n. i + 4 * k < length cd \<longrightarrow> \<not> cd ! (i + 4 * k) > threshold \<Longrightarrow>
   peak_loop cd sr i peaks = peak_loop cd sr (i + 4 * n) peaks"
proof (induction n arbitrary: i)
  case 0
  then show ?case by simp
next
  case (Suc n)
  have rest: "\<forall>k<n. (i + 4) + 4 * k < length cd \<longrightarrow> \<not> cd ! ((i + 4) + 4 * k) > threshold"
  proof (intro allI impI)
    fix k assume "k < n" "(i + 4) + 4 * k < length cd"
    then have "Suc k < Suc n" "i + 4 * Suc k < length cd" by simp_all
    with Suc.prems have "\<not> cd ! (i + 4 * Suc k) > threshold" by blast
    then show "\<not> cd ! ((i + 4) + 4 * k) > threshold" by (simp add: add.assoc)
  qed
  have first: "i < length cd \<Longrightarrow> \<not> cd ! i > threshold"
    using Suc.prems [rule_format, of 0] by simp
  have "peak_loop cd sr i peaks = peak_loop cd sr (i + 4) peaks"
  proof (cases "i < length cd")
    case True
    with first show ?thesis by (subst peak_loop.simps) (simp add: step_def)
  next
    case False
    then show ?thesis by (simp add: peak_loop.simps [of cd sr i] peak_loop.simps [of cd sr "i + 4"])
  qed
  also have "\<dots> = peak_loop cd sr ((i + 4) + 4 * n) peaks"
    using rest by (rule Suc.IH)
  finally show ?case by (simp add: add.assoc)
qed

lemma peak_loop_next:
  assumes "p = i + 4 * n" and "p < length cd" and "cd ! p > threshold"
    and "\<forall>k<n. \<not> cd ! (i + 4 * k) > threshold"
  shows "peak_loop cd sr i peaks = peak_loop cd sr (p + sr div 4 + 4) (peaks @ [p])"
proof -
  have "peak_loop cd sr i peaks = peak_loop cd sr p peaks"
    using assms(1,4) peak_loop_skip [of n i cd sr peaks] by simp
  also have "\<dots> = peak_loop cd sr (p + sr div 4 + 4) (peaks @ [p])"
    using assms(2,3) by (subst peak_loop.simps) (simp add: step_def)
  finally show ?thesis .
qed

lemma peak_loop_end:
  assumes "length cd \<le> i + 4 * n" and "\<forall>k<n. i + 4 * k < length cd \<longrightarrow> \<not> cd ! (i + 4 * k) > threshold"
  shows "peak_loop cd sr i peaks = peaks"
proof -
  have "peak_loop cd sr i peaks = peak_loop cd sr (i + 4 * n) peaks"
    using assms(2) by (rule peak_loop_skip)
  also have "\<dots> = peaks" using assms(1) by (subst peak_loop.simps) simp
  finally show ?thesis .
qed

lemma click_sample:
  "j < 441000 \<Longrightarrow> channelData (click_track w) ! j = (if j mod 22050 < w then 1 else 0)"
  by (simp add: click_track_def)

lemma click_length: "length (channelData (click_track w)) = 441000"
  by (simp add: click_track_def)

lemma click_rate: "sampleRate (click_track w) = 44100"
  by (simp add: click_track_def)

lemma click_quiet:
  assumes "j = 22050 * m + r" and "w \<le> r" and "r < 22050" and "j < 441000"
  shows "\<not> channelData (click_track w) ! j > threshold"
proof -
  have "j mod 22050 = r" using assms(1,3) by simp
  then show ?thesis using assms(2,4) by (simp add: click_sample threshold_def)
qed

lemma click_loud:
  assumes "j = 22050 * m + r" and "r < w" and "r < 22050" and "j < 441000"
  shows "channelData (click_track w) ! j > threshold"
proof -
  have "j mod 22050 = r" using assms(1,3) by simp
  then show ?thesis using assms(2,4) by (simp add: click_sample threshold_def)
qed

lemma click_next:
  assumes w: "4 \<le> w" "w \<le> 11029"
    and i: "i = 22050 * m + r" "11029 \<le> r"
    and p: "p = 22050 * Suc m + off" "off < 4" "p < 441000"
    and n: "p = i + 4 * n"
  shows "peak_loop (channelData (click_track w)) 44100 i peaks =
         peak_loop (channelData (click_track w)) 44100 (p + 11029) (peaks @ [p])"
proof -
  have loud: "channelData (click_track w) ! p > threshold"
    using click_loud [of p "Suc m" off w] p w by simp
  have quiet: "\<forall>k<n. \<not> channelData (click_track w) ! (i + 4 * k) > threshold"
  proof (intro allI impI)
    fix k assume k: "k < n"
    then have "i + 4 * k + 4 \<le> p" using n by simp
    then have lt: "i + 4 * k < 22050 * Suc m" using p by simp
    have "i + 4 * k = 22050 * m + (r + 4 * k)" using i by simp
    moreover have "w \<le> r + 4 * k" using w i by simp
    moreover have "r + 4 * k < 22050" using lt i by simp
    moreover have "i + 4 * k < 441000" using lt p by simp
    ultimately show "\<not> channelData (click_track w) ! (i + 4 * k) > threshold"
      by (rule click_quiet)
  qed
  have "peak_loop (channelData (click_track w)) 44100 i peaks =
        peak_loop (channelData (click_track w)) 44100 (p + 44100 div 4 + 4) (peaks @ [p])"
    using n p(3) loud quiet by (intro peak_loop_next) (simp_all add: click_length)
  then show ?thesis by (simp add: add.commute)
qed

lemma click_peaks:
  assumes w: "4 \<le> w" "w \<le> 11029"
  shows "find_peaks (click_track w) = [0, 22053, 44102, 66151, 88200, 110253, 132302, 154351, 176400, 198453, 220502, 242551, 264600, 286653, 308702, 330751, 352800, 374853, 396902, 418951]"
proof -
  let ?cd = "channelData (click_track w)"
  have s0: "peak_loop ?cd 44100 0 [] = peak_loop ?cd 44100 11029 [0]"
    using w click_loud [of 0 0 0 w] by (subst peak_loop.simps) (simp add: click_length step_def)
  have "peak_loop ?cd 44100 11029 [0] = peak_loop ?cd 44100 (22053 + 11029) ([0] @ [22053])"
    by (rule click_next [OF w, where m = 0 and r = 11029 and off = 3 and n = 2756]) simp_all
  then have s1: "peak_loop ?cd 44100 11029 [0] = peak_loop ?cd 44100 33082 [0, 22053]"
    by simp
  have "peak_loop ?cd 44100 33082 [0, 22053] = peak_loop ?cd 44100 (44102 + 11029) ([0, 22053] @ [44102])"
    by (rule click_next [OF w, where m = 1 and r = 11032 and off = 2 and n = 2755]) simp_all
  then have s2: "peak_loop ?cd 44100 33082 [0, 22053] = peak_loop ?cd 44100 55131 [0, 22053, 44102]"
    by simp
  have "peak_loop ?cd 44100 55131 [0, 22053, 44102] = peak_loop ?cd 44100 (66151 + 11029) ([0, 22053, 44102] @ [66151])"
    by (rule click_next [OF w, where m = 2 and r = 11031 and off = 1 and n = 2755]) simp_all
  then have s3: "peak_loop ?cd 44100 55131 [0, 22053, 44102] = peak_loop ?cd 44100 77180 [0, 22053, 44102, 66151]"
    by simp
  have "peak_loop ?cd 44100 77180 [0, 22053, 44102, 66151] = peak_loop ?cd 44100 (88200 + 11029) ([0, 22053, 44102, 66151] @ [88200])"
    by (rule click_next [OF w, where m = 3 and r = 11030 and off = 0 and n = 2755]) simp_all
  then have s4: "peak_loop ?cd 44100 77180 [0, 22053, 44102, 66151] = peak_loop ?cd 44100 99229 [0, 22053, 44102, 66151, 88200]"
    by simp
  have "peak_loop ?cd 44100 99229 [0, 22053, 44102, 66151, 88200] = peak_loop ?cd 44100 (110253 + 11029) ([0, 22053, 44102, 66151, 88200] @ [110253])"
    by (rule click_next [OF w, where m = 4 and r = 11029 and off = 3 and n = 2756]) simp_all
  then have s5: "peak_loop ?cd 44100 99229 [0, 22053, 44102, 66151, 88200] = peak_loop ?cd 44100 121282 [0, 22053, 44102, 66151, 88200, 110253]"
    by simp
  have "peak_loop ?cd 44100 121282 [0, 22053, 44102, 66151, 88200, 110253] = peak_loop ?cd 44100 (132302 + 11029) ([0, 22053, 44102, 66151, 88200, 110253] @ [132302])"
    by (rule click_next [OF w, where m = 5 and r = 11032 and off = 2 and n = 2755]) simp_all
  then have s6: "peak_loop ?cd 44100 121282 [0, 22053, 44102, 66151, 88200, 110253] = peak_loop ?cd 44100 143331 [0, 22053, 44102, 66151, 88200, 110253, 132302]"
    by simp
  have "peak_loop ?cd 44100 143331 [0, 22053, 44102, 66151, 88200, 110253, 132302] = peak_loop ?cd 44100 (154351 + 11029) ([0, 22053, 44102, 66151, 88200, 110253, 132302] @ [154351])"
    by (rule click_next [OF w, where m = 6 and r = 11031 and off = 1 and n = 2755]) simp_all
  then have s7: "peak_loop ?cd 44100 143331 [0, 22053, 44102, 66151, 88200, 110253, 132302] = peak_loop ?cd 44100 165380 [0, 22053, 44102, 66151, 88200, 110253, 132302, 154351]"
    by simp
  have "peak_loop ?cd 44100 165380 [0, 22053, 44102, 66151, 88200, 110253, 132302, 154351] = peak_loop ?cd 44100 (176400 + 11029) ([0, 22053, 44102, 66151, 88200, 110253, 132302, 154351] @ [176400])"
    by (rule click_next [OF w, where m = 7 and r = 11030 and off = 0 and n = 2755]) simp_all
  then have s8: "peak_loop ?cd 44100 165380 [0, 22053, 44102, 66151, 88200, 110253, 132302, 154351] = peak_loop ?cd 44100 187429 [0, 22053, 44102, 66151, 88200, 110253, 132302, 154351, 176400]"
    by simp
  have "peak_loop ?cd 44100 187429 [0, 22053, 44102, 66151, 88200, 110253, 132302, 154351, 176400] = peak_loop ?cd 44100 (198453 + 11029) ([0, 22053, 44102, 66151, 88200, 110253, 132302, 154351, 176400] @ [198453])"
    by (rule click_next [OF w, where m = 8 and r = 11029 and off = 3 and n = 2756]) simp_all
  then have s9: "peak_loop ?cd 44100 187429 [0, 22053, 44102, 66151, 88200, 110253, 132302, 154351, 176400] = peak_loop ?cd 44100 209482 [0, 22053, 44102, 66151, 88200, 110253, 132302, 154351, 176400, 198453]"
    by simp
  have "peak_loop ?cd 44100 209482 [0, 22053, 44102, 66151, 88200, 110253, 132302, 154351, 176400, 198453] = peak_loop ?cd 44100 (220502 + 11029) ([0, 22053, 44102, 66151, 88200, 110253, 132302, 154351, 176400, 198453] @ [220502])"
    by (rule click_next [OF w, where m = 9 and r = 11032 and off = 2 and n = 2755]) simp_all
  then have s10: "peak_loop ?cd 44100 209482 [0, 22053, 44102, 66151, 88200, 110253, 132302, 154351, 176400, 198453] = peak_loop ?cd 44100 231531 [0, 22053, 44102, 66151, 88200, 110253, 132302, 154351, 176400, 198453, 220502]"
    by simp
  have "peak_loop ?cd 44100 231531 [0, 22053, 44102, 66151, 88200, 110253, 132302, 154351, 176400, 198453, 220502] = peak_loop ?cd 44100 (242551 + 11029) ([0, 22053, 44102, 66151, 88200, 110253, 132302, 154351, 176400, 198453, 220502] @ [242551])"
    by (rule click_next [OF w, where m = 10 and r = 11031 and off = 1 and n = 2755]) simp_all
  then have s11: "peak_loop ?cd 44100 231531 [0, 22053, 44102, 66151, 88200, 110253, 132302, 154351, 176400, 198453, 220502] = peak_loop ?cd 44100 253580 [0, 22053, 44102, 66151, 88200, 110253, 132302, 154351, 176400, 198453, 220502, 242551]"
    by simp
  have "peak_loop ?cd 44100 253580 [0, 22053, 44102, 66151, 88200, 110253, 132302, 154351, 176400, 198453, 220502, 242551] = peak_loop ?cd 44100 (264600 + 11029) ([0, 22053, 44102, 66151, 88200, 110253, 132302, 154351, 176400, 198453, 220502, 242551] @ [264600])"
    by (rule click_next [OF w, where m = 11 and r = 11030 and off = 0 and n = 2755]) simp_all
  then have s12: "peak_loop ?cd 44100 253580 [0, 22053, 44102, 66151, 88200, 110253, 132302, 154351, 176400, 198453, 220502, 242551] = peak_loop ?cd 44100 275629 [0, 22053, 44102, 66151, 88200, 110253, 132302, 154351, 176400, 198453, 220502, 242551, 264600]"
    by simp
  have "peak_loop ?cd 44100 275629 [0, 22053, 44102, 66151, 88200, 110253, 132302, 154351, 176400, 198453, 220502, 242551, 264600] = peak_loop ?cd 44100 (286653 + 11029) ([0, 22053, 44102, 66151, 88200, 110253, 132302, 154351, 176400, 198453, 220502, 242551, 264600] @ [286653])"
    by (rule click_next [OF w, where m = 12 and r = 11029 and off = 3 and n = 2756]) simp_all
  then have s13: "peak_loop ?cd 44100 275629 [0, 22053, 44102, 66151, 88200, 110253, 132302, 154351, 176400, 198453, 220502, 242551, 264600] = peak_loop ?cd 44100 297682 [0, 22053, 44102, 66151, 88200, 110253, 132302, 154351, 176400, 198453, 220502, 242551, 264600, 286653]"
    by simp
  have "peak_loop ?cd 44100 297682 [0, 22053, 44102, 66151, 88200, 110253, 132302, 154351, 176400, 198453, 220502, 242551, 264600, 286653] = peak_loop ?cd 44100 (308702 + 11029) ([0, 22053, 44102, 66151, 88200, 110253, 132302, 154351, 176400, 198453, 220502, 242551, 264600, 286653] @ [308702])"
    by (rule click_next [OF w, where m = 13 and r = 11032 and off = 2 and n = 2755]) simp_all
  then have s14: "peak_loop ?cd 44100 297682 [0, 22053, 44102, 66151, 88200, 110253, 132302, 154351, 176400, 198453, 220502, 242551, 264600, 286653] = peak_loop ?cd 44100 319731 [0, 22053, 44102, 66151, 88200, 110253, 132302, 154351, 176400, 198453, 220502, 242551, 264600, 286653, 308702]"
    by simp
  have "peak_loop ?cd 44100 319731 [0, 22053, 44102, 66151, 88200, 110253, 132302, 154351, 176400, 198453, 220502, 242551, 264600, 286653, 308702] = peak_loop ?cd 44100 (330751 + 11029) ([0, 22053, 44102, 66151, 88200, 110253, 132302, 154351, 176400, 198453, 220502, 242551, 264600, 286653, 308702] @ [330751])"
    by (rule click_next [OF w, where m = 14 and r = 11031 and off = 1 and n = 2755]) simp_all
  then have s15: "peak_loop ?cd 44100 319731 [0, 22053, 44102, 66151, 88200, 110253, 132302, 154351, 176400, 198453, 220502, 242551, 264600, 286653, 308702] = peak_loop ?cd 44100 341780 [0, 22053, 44102, 66151, 88200, 110253, 132302, 154351, 176400, 198453, 220502, 242551, 264600, 286653, 308702, 330751]"
    by simp
  have "peak_loop ?cd 44100 341780 [0, 22053, 44102, 66151, 88200, 110253, 132302, 154351, 176400, 198453, 220502, 242551, 264600, 286653, 308702, 330751] = peak_loop ?cd 44100 (352800 + 11029) ([0, 22053, 44102, 66151, 88200, 110253, 132302, 154351, 176400, 198453, 220502, 242551, 264600, 286653, 308702, 330751] @ [352800])"
    by (rule click_next [OF w, where m = 15 and r = 11030 and off = 0 and n = 2755]) simp_all
  then have s16: "peak_loop ?cd 44100 341780 [0, 22053, 44102, 66151, 88200, 110253, 132302, 154351, 176400, 198453, 220502, 242551, 264600, 286653, 308702, 330751] = peak_loop ?cd 44100 363829 [0, 22053, 44102, 66151, 88200, 110253, 132302, 154351, 176400, 198453, 220502, 242551, 264600, 286653, 308702, 330751, 352800]"
    by simp
  have "peak_loop ?cd 44100 363829 [0, 22053, 44102, 66151, 88200, 110253, 132302, 154351, 176400, 198453, 220502, 242551, 264600, 286653, 308702, 330751, 352800] = peak_loop ?cd 44100 (374853 + 11029) ([0, 22053, 44102, 66151, 88200, 110253, 132302, 154351, 176400, 198453, 220502, 242551, 264600, 286653, 308702, 330751, 352800] @ [374853])"
    by (rule click_next [OF w, where m = 16 and r = 11029 and off = 3 and n = 2756]) simp_all
  then have s17: "peak_loop ?cd 44100 363829 [0, 22053, 44102, 66151, 88200, 110253, 132302, 154351, 176400, 198453, 220502, 242551, 264600, 286653, 308702, 330751, 352800] = peak_loop ?cd 44100 385882 [0, 22053, 44102, 66151, 88200, 110253, 132302, 154351, 176400, 198453, 220502, 242551, 264600, 286653, 308702, 330751, 352800, 374853]"
    by simp
  have "peak_loop ?cd 44100 385882 [0, 22053, 44102, 66151, 88200, 110253, 132302, 154351, 176400, 198453, 220502, 242551, 264600, 286653, 308702, 330751, 352800, 374853] = peak_loop ?cd 44100 (396902 + 11029) ([0, 22053, 44102, 66151, 88200, 110253, 132302, 154351, 176400, 198453, 220502, 242551, 264600, 286653, 308702, 330751, 352800, 374853] @ [396902])"
    by (rule click_next [OF w, where m = 17 and r = 11032 and off = 2 and n = 2755]) simp_all
  then have s18: "peak_loop ?cd 44100 385882 [0, 22053, 44102, 66151, 88200, 110253, 132302, 154351, 176400, 198453, 220502, 242551, 264600, 286653, 308702, 330751, 352800, 374853] = peak_loop ?cd 44100 407931 [0, 22053, 44102, 66151, 88200, 110253, 132302, 154351, 176400, 198453, 220502, 242551, 264600, 286653, 308702, 330751, 352800, 374853, 396902]"
    by simp
  have "peak_loop ?cd 44100 407931 [0, 22053, 44102, 66151, 88200, 110253, 132302, 154351, 176400, 198453, 220502, 242551, 264600, 286653, 308702, 330751, 352800, 374853, 396902] = peak_loop ?cd 44100 (418951 + 11029) ([0, 22053, 44102, 66151, 88200, 110253, 132302, 154351, 176400, 198453, 220502, 242551, 264600, 286653, 308702, 330751, 352800, 374853, 396902] @ [418951])"
    by (rule click_next [OF w, where m = 18 and r = 11031 and off = 1 and n = 2755]) simp_all
  then have s19: "peak_loop ?cd 44100 407931 [0, 22053, 44102, 66151, 88200, 110253, 132302, 154351, 176400, 198453, 220502, 242551, 264600, 286653, 308702, 330751, 352800, 374853, 396902] = peak_loop ?cd 44100 429980 [0, 22053, 44102, 66151, 88200, 110253, 132302, 154351, 176400, 198453, 220502, 242551, 264600, 286653, 308702, 330751, 352800, 374853, 396902, 418951]"
    by simp
  have fin: "peak_loop ?cd 44100 429980 [0, 22053, 44102, 66151, 88200, 110253, 132302, 154351, 176400, 198453, 220502, 242551, 264600, 286653, 308702, 330751, 352800, 374853, 396902, 418951] = [0, 22053, 44102, 66151, 88200, 110253, 132302, 154351, 176400, 198453, 220502, 242551, 264600, 286653, 308702, 330751, 352800, 374853, 396902, 418951]"
  proof (rule peak_loop_end [where n = 2755])
    show "length ?cd \<le> 429980 + 4 * 2755" by (simp add: click_length)
    show "\<forall>k<2755. 429980 + 4 * k < length ?cd \<longrightarrow> \<not> ?cd ! (429980 + 4 * k) > threshold"
    proof (intro allI impI)
      fix k :: nat assume "429980 + 4 * k < length ?cd"
      then have lt: "429980 + 4 * k < 441000" by (simp add: click_length)
      show "\<not> ?cd ! (429980 + 4 * k) > threshold"
        using w lt by (intro click_quiet [where m = 19 and r = "11030 + 4 * k"]) simp_all
    qed
  qed
  have "peak_loop ?cd 44100 0 [] = [0, 22053, 44102, 66151, 88200, 110253, 132302, 154351, 176400, 198453, 220502, 242551, 264600, 286653, 308702, 330751, 352800, 374853, 396902, 418951]"
    by (simp only: s0 s1 s2 s3 s4 s5 s6 s7 s8 s9 s10 s11 s12 s13 s14 s15 s16 s17 s18 s19 fin)
  then show ?thesis by (simp only: find_peaks_def click_rate)
qed

lemma Math_round_div: "Math_round (real_of_int v / 100) = (v + 50) div 100"
proof -
  have "real_of_int v / 100 + 1 / 2 = real_of_int (v + 50) / real_of_int 100" by simp
  then have "Math_round (real_of_int v / 100) = \<lfloor>real_of_int (v + 50) / real_of_int 100\<rfloor>"
    by (simp only: Math_round_def)
  also have "\<dots> = (v + 50) div 100" by (rule floor_divide_of_int_eq)
  finally show ?thesis .
qed

lemma quantize_div: "quantize v = (v + 50) div 100 * 100"
  by (simp add: quantize_def Math_round_div)

lemma click_intervals:
  "intervals_of [0, 22053, 44102, 66151, 88200, 110253, 132302, 154351, 176400, 198453,
     220502, 242551, 264600, 286653, 308702, 330751, 352800, 374853, 396902, 418951] =
   [22053, 22049, 22049, 22049, 22053, 22049, 22049, 22049, 22053, 22049, 22049, 22049, 22053,
    22049, 22049, 22049, 22053, 22049, 22049]"
  by (simp add: intervals_of_def upt_rec)

lemma click_groups:
  "group_intervals [22053, 22049, 22049, 22049, 22053, 22049, 22049, 22049, 22053, 22049, 22049, 22049, 22053,
    22049, 22049, 22049, 22053, 22049, 22049] = [(22100, 5), (22000, 14)]"
  by (simp add: group_intervals_def quantize_div)

lemma click_best: "best_interval [(22100, 5), (22000, 14)] = 22000"
  by (simp add: best_interval_def for_in_keys_def is_array_index_def lookup_def)

text \<open>
  For every click width from 4 samples to 250 ms the estimate of the click track is
  \<open>2 \<cdot> (60 \<cdot> 44100) / (22000 \<cdot> 4) = 1323 / 22\<close>, about 60.14.
\<close>

lemma click_bpm:
  assumes "4 \<le> w" "w \<le> 11029"
  shows "detectBPM (click_track w) = 1323 / 22"
  by (simp add: detectBPM_def click_peaks [OF assms] click_intervals click_groups click_best
      click_rate step_def)

lemma click_bpm_44: "detectBPM (click_track 44) = 1323 / 22"
  by (rule click_bpm) simp_all

section \<open>The histogram and the selected interval\<close>

lemma map_fst_bump:
  "map fst (bump k g) = (if k \<in> fst ` set g then map fst g else map fst g @ [k])"
  by (induction g) force+

lemma lookup_bump:
  "lookup (bump k g) k' = (if k' = k then lookup g k + 1 else lookup g k')"
  by (induction g) (auto simp add: lookup_def)

lemma distinct_bump: "distinct (map fst g) \<Longrightarrow> distinct (map fst (bump k g))"
  by (simp add: map_fst_bump)

lemma set_bump: "fst ` set (bump k g) = insert k (fst ` set g)"
proof -
  have "set (map fst (bump k g)) = insert k (set (map fst g))"
    by (auto simp add: map_fst_bump)
  then show ?thesis by simp
qed

lemma group_intervals_snoc:
  "group_intervals (ivs @ [v]) = bump (quantize v) (group_intervals ivs)"
  by (simp add: group_intervals_def)

lemma group_intervals_spec:
  "distinct (map fst (group_intervals ivs)) \<and>
   fst ` set (group_intervals ivs) = quantize ` set ivs \<and>
   (\<forall>k. lookup (group_intervals ivs) k = count_list (map quantize ivs) k)"
proof (induction ivs rule: rev_induct)
  case Nil
  show ?case by (simp add: group_intervals_def lookup_def)
next
  case (snoc v ivs)
  then show ?case
    by (auto simp add: group_intervals_snoc distinct_bump set_bump lookup_bump)
qed

lemma select_loop_spec:
  assumes "sorted ks" and "select_loop g ks (m0, b0) = (m, b)"
  shows "(b = b0 \<and> m = m0 \<and> (\<forall>k\<in>set ks. lookup g k \<le> m0)) \<or>
         (b \<in> set ks \<and> m = lookup g b \<and> m0 < m \<and> (\<forall>k\<in>set ks. lookup g k \<le> m) \<and>
          (\<forall>k\<in>set ks. lookup g k = m \<longrightarrow> b \<le> k))"
  using assms
proof (induction ks arbitrary: m0 b0)
  case Nil
  then show ?case by simp
next
  case (Cons k ks)
  have sorted: "sorted ks" and least: "\<forall>k'\<in>set ks. k \<le> k'"
    using Cons.prems(1) by simp_all
  show ?case
  proof (cases "lookup g k > m0")
    case True
    with Cons.prems(2) have "select_loop g ks (lookup g k, k) = (m, b)" by simp
    from Cons.IH [OF sorted this] show ?thesis
    proof
      assume "b = k \<and> m = lookup g k \<and> (\<forall>k'\<in>set ks. lookup g k' \<le> lookup g k)"
      with True least show ?thesis by auto
    next
      assume "b \<in> set ks \<and> m = lookup g b \<and> lookup g k < m \<and>
        (\<forall>k\<in>set ks. lookup g k \<le> m) \<and> (\<forall>k\<in>set ks. lookup g k = m \<longrightarrow> b \<le> k)"
      with True show ?thesis by auto
    qed
  next
    case False
    with Cons.prems(2) have "select_loop g ks (m0, b0) = (m, b)" by simp
    from Cons.IH [OF sorted this] show ?thesis
    proof
      assume "b = b0 \<and> m = m0 \<and> (\<forall>k\<in>set ks. lookup g k \<le> m0)"
      with False show ?thesis by auto
    next
      assume "b \<in> set ks \<and> m = lookup g b \<and> m0 < m \<and>
        (\<forall>k\<in>set ks. lookup g k \<le> m) \<and> (\<forall>k\<in>set ks. lookup g k = m \<longrightarrow> b \<le> k)"
      with False show ?thesis by auto
    qed
  qed
qed

lemma for_in_keys_sorted:
  assumes "\<forall>k\<in>fst ` set g. is_array_index k"
  shows "for_in_keys g = sort (map fst g)"
proof -
  have "filter is_array_index (map fst g) = map fst g"
    using assms by (intro filter_True) simp
  moreover have "filter (\<lambda>k. \<not> is_array_index k) (map fst g) = []"
    using assms by (intro filter_False) simp
  ultimately show ?thesis by (simp add: for_in_keys_def)
qed

text \<open>
  When every key of the histogram is an array index, the selected interval is the smallest
  of the most frequent quantized intervals.
\<close>

lemma best_interval_least_most_frequent:
  assumes "intervals \<noteq> []"
    and "\<forall>v\<in>set intervals. is_array_index (quantize v)"
    and "b = best_interval (group_intervals intervals)"
  shows "b \<in> quantize ` set intervals \<and>
         (\<forall>k. count_list (map quantize intervals) k \<le> count_list (map quantize intervals) b) \<and>
         (\<forall>k. count_list (map quantize intervals) k = count_list (map quantize intervals) b
            \<longrightarrow> b \<le> k)"
proof -
  let ?g = "group_intervals intervals"
  let ?qs = "map quantize intervals"
  have keys: "fst ` set ?g = quantize ` set intervals"
    and cnt: "\<And>k. lookup ?g k = count_list ?qs k"
    using group_intervals_spec [of intervals] by simp_all
  have "\<forall>k\<in>fst ` set ?g. is_array_index k" using assms(2) keys by simp
  then have order: "for_in_keys ?g = sort (map fst ?g)" by (rule for_in_keys_sorted)
  let ?ks = "sort (map fst ?g)"
  have set_ks: "set ?ks = quantize ` set intervals" using keys by simp
  obtain m where sel: "select_loop ?g ?ks (0, 0) = (m, b)"
    using assms(3) order by (cases "select_loop ?g ?ks (0, 0)") (simp add: best_interval_def)
  obtain v where v: "v \<in> set intervals" using assms(1) by (cases intervals) auto
  then have "count_list ?qs (quantize v) \<noteq> 0" by (simp add: count_list_0_iff)
  then have pos: "0 < count_list ?qs (quantize v)" by simp
  have "sorted ?ks" by simp
  from select_loop_spec [OF this sel]
  have best: "b \<in> set ?ks \<and> m = lookup ?g b \<and> (\<forall>k\<in>set ?ks. lookup ?g k \<le> m) \<and>
      (\<forall>k\<in>set ?ks. lookup ?g k = m \<longrightarrow> b \<le> k)"
  proof
    assume "b = 0 \<and> m = 0 \<and> (\<forall>k\<in>set ?ks. lookup ?g k \<le> 0)"
    then have "lookup ?g (quantize v) \<le> 0" using v set_ks by blast
    with pos cnt show ?thesis by simp
  next
    assume "b \<in> set ?ks \<and> m = lookup ?g b \<and> 0 < m \<and> (\<forall>k\<in>set ?ks. lookup ?g k \<le> m) \<and>
      (\<forall>k\<in>set ?ks. lookup ?g k = m \<longrightarrow> b \<le> k)"
    then show ?thesis by blast
  qed
  have b_in: "b \<in> quantize ` set intervals" using best set_ks by blast
  then have "count_list ?qs b \<noteq> 0" by (simp add: count_list_0_iff)
  then have b_pos: "0 < count_list ?qs b" by simp
  have le: "count_list ?qs k \<le> count_list ?qs b" for k
  proof (cases "k \<in> set ?ks")
    case True
    with best cnt show ?thesis by auto
  next
    case False
    then have "count_list ?qs k = 0" using set_ks by (simp add: count_list_0_iff)
    then show ?thesis by simp
  qed
  have tie: "b \<le> k" if "count_list ?qs k = count_list ?qs b" for k
  proof -
    from that b_pos have "count_list ?qs k \<noteq> 0" by simp
    then have "k \<in> set ?ks" using set_ks by (simp add: count_list_0_iff)
    with best cnt that show ?thesis by auto
  qed
  show ?thesis using b_in le tie by blast
qed

text \<open>
  The intervals between the peaks of a buffer are positive and shorter than the buffer, so
  for a buffer of fewer than \<open>2\<^sup>3\<^sup>2 - 50\<close> samples every key is an array index.
\<close>

lemma intervals_of_gap:
  assumes "sorted_wrt (\<lambda>p q. p + G \<le> q) ps" and "v \<in> set (intervals_of ps)"
  shows "int G \<le> v"
proof -
  from assms(2) obtain i where i: "1 \<le> i" "i < length ps"
    and v: "v = int (ps ! i) - int (ps ! (i - 1))"
    by (auto simp add: intervals_of_def)
  have "ps ! (i - 1) + G \<le> ps ! i"
    using sorted_wrt_nth_less [OF assms(1), of "i - 1" i] i by simp
  with v show ?thesis by simp
qed

lemma intervals_of_upper:
  assumes "\<forall>p\<in>set ps. p < L" and "v \<in> set (intervals_of ps)"
  shows "v < int L"
proof -
  from assms(2) obtain i where i: "i < length ps"
    and v: "v = int (ps ! i) - int (ps ! (i - 1))"
    by (auto simp add: intervals_of_def)
  have "ps ! i < L" using assms(1) i by simp
  with v show ?thesis by simp
qed

lemma quantize_array_index:
  assumes "0 \<le> v" and "v \<le> 4294967244"
  shows "is_array_index (quantize v)"
proof -
  have "(v + 50) div 100 * 100 \<le> v + 50" by simp
  moreover have "0 \<le> (v + 50) div 100 * 100" using assms(1) by simp
  ultimately show ?thesis using assms(2) by (simp add: quantize_div is_array_index_def)
qed

lemma intervals_array_index:
  assumes "length (channelData buffer) < 4294967246"
    and "v \<in> set (intervals_of (find_peaks buffer))"
  shows "is_array_index (quantize v)"
proof -
  have "sorted_wrt (\<lambda>p q. p + (sampleRate buffer div 4 + step) \<le> q) (find_peaks buffer)"
    using peak_loop_gap [of "sampleRate buffer" "[]" 0 "channelData buffer"]
    by (simp add: find_peaks_def add.assoc)
  from intervals_of_gap [OF this assms(2)] have lo: "0 \<le> v" by simp
  have "v < int (length (channelData buffer))"
    using find_peaks_bound assms(2) by (intro intervals_of_upper) auto
  with assms(1) have "v \<le> 4294967244" by simp
  with lo show ?thesis by (rule quantize_array_index)
qed

text \<open>
  The peaks, the histogram and the estimate of the second test signal.
\<close>

lemma tie_sample:
  "j < 220511 \<Longrightarrow> channelData tie_track ! j = (if j \<in> set tie_peaks then 1 else 0)"
  by (simp add: tie_track_def)

lemma tie_length: "length (channelData tie_track) = 220511"
  by (simp add: tie_track_def)

lemma tie_rate: "sampleRate tie_track = 44100"
  by (simp add: tie_track_def)

lemma tie_track_peaks: "find_peaks tie_track = tie_peaks"
proof -
  let ?cd = "channelData tie_track"
  have s0: "peak_loop ?cd 44100 0 [] = peak_loop ?cd 44100 11029 [0]"
    by (subst peak_loop.simps) (simp add: tie_length tie_sample tie_peaks_def threshold_def step_def)
  have "peak_loop ?cd 44100 11029 [0] = peak_loop ?cd 44100 (22053 + 44100 div 4 + 4) ([0] @ [22053])"
  proof (rule peak_loop_next [where n = 2756])
    show "(22053::nat) = 11029 + 4 * 2756" by simp
    show "22053 < length ?cd" by (simp add: tie_length)
    show "?cd ! 22053 > threshold" by (simp add: tie_sample tie_peaks_def threshold_def)
    show "\<forall>k<2756. \<not> ?cd ! (11029 + 4 * k) > threshold"
      by (auto simp add: tie_sample tie_peaks_def threshold_def)
  qed
  then have s1: "peak_loop ?cd 44100 11029 [0] = peak_loop ?cd 44100 33082 [0, 22053]"
    by simp
  have "peak_loop ?cd 44100 33082 [0, 22053] = peak_loop ?cd 44100 (44106 + 44100 div 4 + 4) ([0, 22053] @ [44106])"
  proof (rule peak_loop_next [where n = 2756])
    show "(44106::nat) = 33082 + 4 * 2756" by simp
    show "44106 < length ?cd" by (simp add: tie_length)
    show "?cd ! 44106 > threshold" by (simp add: tie_sample tie_peaks_def threshold_def)
    show "\<forall>k<2756. \<not> ?cd ! (33082 + 4 * k) > threshold"
      by (auto simp add: tie_sample tie_peaks_def threshold_def)
  qed
  then have s2: "peak_loop ?cd 44100 33082 [0, 22053] = peak_loop ?cd 44100 55135 [0, 22053, 44106]"
    by simp
  have "peak_loop ?cd 44100 55135 [0, 22053, 44106] = peak_loop ?cd 44100 (66159 + 44100 div 4 + 4) ([0, 22053, 44106] @ [66159])"
  proof (rule peak_loop_next [where n = 2756])
    show "(66159::nat) = 55135 + 4 * 2756" by simp
    show "66159 < length ?cd" by (simp add: tie_length)
    show "?cd ! 66159 > threshold" by (simp add: tie_sample tie_peaks_def threshold_def)
    show "\<forall>k<2756. \<not> ?cd ! (55135 + 4 * k) > threshold"
      by (auto simp add: tie_sample tie_peaks_def threshold_def)
  qed
  then have s3: "peak_loop ?cd 44100 55135 [0, 22053, 44106] = peak_loop ?cd 44100 77188 [0, 22053, 44106, 66159]"
    by simp
  have "peak_loop ?cd 44100 77188 [0, 22053, 44106, 66159] = peak_loop ?cd 44100 (88212 + 44100 div 4 + 4) ([0, 22053, 44106, 66159] @ [88212])"
  proof (rule peak_loop_next [where n = 2756])
    show "(88212::nat) = 77188 + 4 * 2756" by simp
    show "88212 < length ?cd" by (simp add: tie_length)
    show "?cd ! 88212 > threshold" by (simp add: tie_sample tie_peaks_def threshold_def)
    show "\<forall>k<2756. \<not> ?cd ! (77188 + 4 * k) > threshold"
      by (auto simp add: tie_sample tie_peaks_def threshold_def)
  qed
  then have s4: "peak_loop ?cd 44100 77188 [0, 22053, 44106, 66159] = peak_loop ?cd 44100 99241 [0, 22053, 44106, 66159, 88212]"
    by simp
  have "peak_loop ?cd 44100 99241 [0, 22053, 44106, 66159, 88212] = peak_loop ?cd 44100 (110265 + 44100 div 4 + 4) ([0, 22053, 44106, 66159, 88212] @ [110265])"
  proof (rule peak_loop_next [where n = 2756])
    show "(110265::nat) = 99241 + 4 * 2756" by simp
    show "110265 < length ?cd" by (simp add: tie_length)
    show "?cd ! 110265 > threshold" by (simp add: tie_sample tie_peaks_def threshold_def)
    show "\<forall>k<2756. \<not> ?cd ! (99241 + 4 * k) > threshold"
      by (auto simp add: tie_sample tie_peaks_def threshold_def)
  qed
  then have s5: "peak_loop ?cd 44100 99241 [0, 22053, 44106, 66159, 88212] = peak_loop ?cd 44100 121294 [0, 22053, 44106, 66159, 88212, 110265]"
    by simp
  have "peak_loop ?cd 44100 121294 [0, 22053, 44106, 66159, 88212, 110265] = peak_loop ?cd 44100 (132314 + 44100 div 4 + 4) ([0, 22053, 44106, 66159, 88212, 110265] @ [132314])"
  proof (rule peak_loop_next [where n = 2755])
    show "(132314::nat) = 121294 + 4 * 2755" by simp
    show "132314 < length ?cd" by (simp add: tie_length)
    show "?cd ! 132314 > threshold" by (simp add: tie_sample tie_peaks_def threshold_def)
    show "\<forall>k<2755. \<not> ?cd ! (121294 + 4 * k) > threshold"
      by (auto simp add: tie_sample tie_peaks_def threshold_def)
  qed
  then have s6: "peak_loop ?cd 44100 121294 [0, 22053, 44106, 66159, 88212, 110265] = peak_loop ?cd 44100 143343 [0, 22053, 44106, 66159, 88212, 110265, 132314]"
    by simp
  have "peak_loop ?cd 44100 143343 [0, 22053, 44106, 66159, 88212, 110265, 132314] = peak_loop ?cd 44100 (154363 + 44100 div 4 + 4) ([0, 22053, 44106, 66159, 88212, 110265, 132314] @ [154363])"
  proof (rule peak_loop_next [where n = 2755])
    show "(154363::nat) = 143343 + 4 * 2755" by simp
    show "154363 < length ?cd" by (simp add: tie_length)
    show "?cd ! 154363 > threshold" by (simp add: tie_sample tie_peaks_def threshold_def)
    show "\<forall>k<2755. \<not> ?cd ! (143343 + 4 * k) > threshold"
      by (auto simp add: tie_sample tie_peaks_def threshold_def)
  qed
  then have s7: "peak_loop ?cd 44100 143343 [0, 22053, 44106, 66159, 88212, 110265, 132314] = peak_loop ?cd 44100 165392 [0, 22053, 44106, 66159, 88212, 110265, 132314, 154363]"
    by simp
  have "peak_loop ?cd 44100 165392 [0, 22053, 44106, 66159, 88212, 110265, 132314, 154363] = peak_loop ?cd 44100 (176412 + 44100 div 4 + 4) ([0, 22053, 44106, 66159, 88212, 110265, 132314, 154363] @ [176412])"
  proof (rule peak_loop_next [where n = 2755])
    show "(176412::nat) = 165392 + 4 * 2755" by simp
    show "176412 < length ?cd" by (simp add: tie_length)
    show "?cd ! 176412 > threshold" by (simp add: tie_sample tie_peaks_def threshold_def)
    show "\<forall>k<2755. \<not> ?cd ! (165392 + 4 * k) > threshold"
      by (auto simp add: tie_sample tie_peaks_def threshold_def)
  qed
  then have s8: "peak_loop ?cd 44100 165392 [0, 22053, 44106, 66159, 88212, 110265, 132314, 154363] = peak_loop ?cd 44100 187441 [0, 22053, 44106, 66159, 88212, 110265, 132314, 154363, 176412]"
    by simp
  have "peak_loop ?cd 44100 187441 [0, 22053, 44106, 66159, 88212, 110265, 132314, 154363, 176412] = peak_loop ?cd 44100 (198461 + 44100 div 4 + 4) ([0, 22053, 44106, 66159, 88212, 110265, 132314, 154363, 176412] @ [198461])"
  proof (rule peak_loop_next [where n = 2755])
    show "(198461::nat) = 187441 + 4 * 2755" by simp
    show "198461 < length ?cd" by (simp add: tie_length)
    show "?cd ! 198461 > threshold" by (simp add: tie_sample tie_peaks_def threshold_def)
    show "\<forall>k<2755. \<not> ?cd ! (187441 + 4 * k) > threshold"
      by (auto simp add: tie_sample tie_peaks_def threshold_def)
  qed
  then have s9: "peak_loop ?cd 44100 187441 [0, 22053, 44106, 66159, 88212, 110265, 132314, 154363, 176412] = peak_loop ?cd 44100 209490 [0, 22053, 44106, 66159, 88212, 110265, 132314, 154363, 176412, 198461]"
    by simp
  have "peak_loop ?cd 44100 209490 [0, 22053, 44106, 66159, 88212, 110265, 132314, 154363, 176412, 198461] = peak_loop ?cd 44100 (220510 + 44100 div 4 + 4) ([0, 22053, 44106, 66159, 88212, 110265, 132314, 154363, 176412, 198461] @ [220510])"
  proof (rule peak_loop_next [where n = 2755])
    show "(220510::nat) = 209490 + 4 * 2755" by simp
    show "220510 < length ?cd" by (simp add: tie_length)
    show "?cd ! 220510 > threshold" by (simp add: tie_sample tie_peaks_def threshold_def)
    show "\<forall>k<2755. \<not> ?cd ! (209490 + 4 * k) > threshold"
      by (auto simp add: tie_sample tie_peaks_def threshold_def)
  qed
  then have s10: "peak_loop ?cd 44100 209490 [0, 22053, 44106, 66159, 88212, 110265, 132314, 154363, 176412, 198461] = peak_loop ?cd 44100 231539 [0, 22053, 44106, 66159, 88212, 110265, 132314, 154363, 176412, 198461, 220510]"
    by simp
  have fin: "peak_loop ?cd 44100 231539 [0, 22053, 44106, 66159, 88212, 110265, 132314, 154363, 176412, 198461, 220510] = [0, 22053, 44106, 66159, 88212, 110265, 132314, 154363, 176412, 198461, 220510]"
    by (subst peak_loop.simps) (simp add: tie_length)
  have "peak_loop ?cd 44100 0 [] = [0, 22053, 44106, 66159, 88212, 110265, 132314, 154363, 176412, 198461, 220510]"
    by (simp only: s0 s1 s2 s3 s4 s5 s6 s7 s8 s9 s10 fin)
  then show ?thesis by (simp only: find_peaks_def tie_rate tie_peaks_def)
qed

lemma tie_intervals:
  "intervals_of tie_peaks =
     [22053, 22053, 22053, 22053, 22053, 22049, 22049, 22049, 22049, 22049]"
  by (simp add: intervals_of_def tie_peaks_def upt_rec)

lemma tie_groups:
  "group_intervals [22053, 22053, 22053, 22053, 22053, 22049, 22049, 22049, 22049, 22049] =
     [(22100, 5), (22000, 5)]"
  by (simp add: group_intervals_def quantize_div)

lemma tie_best: "best_interval [(22100, 5), (22000, 5)] = 22000"
  by (simp add: best_interval_def for_in_keys_def is_array_index_def lookup_def)

lemma tie_peaks_length: "length tie_peaks = 11"
  by (simp add: tie_peaks_def)

lemma tie_bpm: "detectBPM tie_track = 1323 / 22"
  by (simp add: detectBPM_def tie_track_peaks tie_peaks_length tie_intervals tie_groups tie_best
      tie_rate step_def)

text \<open>
  Claim C5, as amended. The histogram is an object with integer keys, and \<^verbatim>\<open>for ... in\<close>
  visits such keys in ascending numeric order, not in the order of their creation. For every
  buffer of fewer than \<open>2\<^sup>3\<^sup>2 - 50\<close> samples with at least two peaks, the selected
  interval is one of the quantized intervals, no quantized interval occurs more often, and
  among the quantized intervals that occur equally often it is the smallest. The result is a
  function of the input, hence deterministic.
\<close>

theorem tie_goes_to_smallest_interval:
  assumes "length (channelData buffer) < 4294967246"
    and "2 \<le> length (find_peaks buffer)"
    and "qs = map quantize (intervals_of (find_peaks buffer))"
    and "b = best_interval (group_intervals (intervals_of (find_peaks buffer)))"
  shows "b \<in> set qs \<and>
         (\<forall>k. count_list qs k \<le> count_list qs b) \<and>
         (\<forall>k. count_list qs k = count_list qs b \<longrightarrow> b \<le> k)"
proof -
  have ne: "intervals_of (find_peaks buffer) \<noteq> []"
    using assms(2) by (auto simp add: intervals_of_def)
  have idx: "\<forall>v\<in>set (intervals_of (find_peaks buffer)). is_array_index (quantize v)"
    using assms(1) by (blast intro: intervals_array_index)
  show ?thesis
    using best_interval_least_most_frequent [OF ne idx assms(4)] by (simp add: assms(3))
qed

text \<open>
  Witness for C5: in the second test signal the intervals 22100 and 22000 both occur five
  times, and 22000 is selected.
\<close>

theorem tie_goes_to_smallest_interval_witness:
  "length (channelData tie_track) < 4294967246 \<and>
   2 \<le> length (find_peaks tie_track) \<and>
   map quantize (intervals_of (find_peaks tie_track)) =
     [22100, 22100, 22100, 22100, 22100, 22000, 22000, 22000, 22000, 22000] \<and>
   best_interval (group_intervals (intervals_of (find_peaks tie_track))) = 22000 \<and>
   count_list (map quantize (intervals_of (find_peaks tie_track))) 22100 =
     count_list (map quantize (intervals_of (find_peaks tie_track))) 22000 \<and>
   (22000::int) \<le> 22100"
proof -
  have a: "length (channelData tie_track) < 4294967246" by (simp add: tie_length)
  have b: "2 \<le> length (find_peaks tie_track)" by (simp add: tie_track_peaks tie_peaks_length)
  have c: "map quantize (intervals_of (find_peaks tie_track)) =
     [22100, 22100, 22100, 22100, 22100, 22000, 22000, 22000, 22000, 22000]"
    by (simp add: tie_track_peaks tie_intervals quantize_div)
  have d: "22000 = best_interval (group_intervals (intervals_of (find_peaks tie_track)))"
    by (simp add: tie_track_peaks tie_intervals tie_groups tie_best)
  from tie_goes_to_smallest_interval [OF a b refl d]
  have "count_list (map quantize (intervals_of (find_peaks tie_track))) 22100
      \<le> count_list (map quantize (intervals_of (find_peaks tie_track))) 22000"
    by blast
  moreover have "count_list (map quantize (intervals_of (find_peaks tie_track))) 22000 = 5"
    "count_list (map quantize (intervals_of (find_peaks tie_track))) 22100 = 5"
    unfolding c by simp_all
  ultimately show ?thesis using a b c d by simp
qed

text \<open>
  Counterexample to C5 as stated: the first interval of the second test signal quantizes to
  22100, so 22100 is the bucket created first; 22000 ties with it and is selected. The
  estimate is the one of the interval 22000, \<open>1323 / 22\<close>, and not the one of the interval
  22100, \<open>2 \<cdot> (60 \<cdot> 44100) / (22100 \<cdot> 4) = 13230 / 221\<close>.
\<close>

theorem first_bucket_counterexample:
  "group_intervals (intervals_of (find_peaks tie_track)) = [(22100, 5), (22000, 5)] \<and>
   best_interval (group_intervals (intervals_of (find_peaks tie_track))) = 22000 \<and>
   detectBPM tie_track = 1323 / 22 \<and>
   detectBPM tie_track \<noteq> 13230 / 221"
  by (simp add: tie_track_peaks tie_intervals tie_groups tie_best tie_bpm)

section \<open>Octave correction and the 120 BPM click track\<close>

lemma select_loop_mem: "snd (select_loop g ks (m, b)) \<in> insert b (set ks)"
  by (induction ks arbitrary: m b) auto

lemma best_interval_mem: "best_interval g = 0 \<or> best_interval g \<in> fst ` set g"
proof -
  have "set (for_in_keys g) \<subseteq> fst ` set g" by (auto simp add: for_in_keys_def)
  with select_loop_mem [of g "for_in_keys g" 0 0] show ?thesis
    by (auto simp add: best_interval_def)
qed

lemma best_interval_quantized:
  "best_interval (group_intervals ivs) = 0 \<or>
   best_interval (group_intervals ivs) \<in> quantize ` set ivs"
  using best_interval_mem [of "group_intervals ivs"] group_intervals_spec [of ivs] by simp

text \<open>
  At 44.1 kHz two peaks are at least 11029 samples apart, so the tempo before the octave
  correction is at most \<open>60 \<cdot> 44100 / (11000 \<cdot> 4)\<close>, about 60.1; it is doubled once,
  and the double is 120 only for the interval 11025, which is not a multiple of 100.
\<close>

lemma never_120_at_44100: "detectBPM \<lparr>channelData = cd, sampleRate = 44100\<rparr> \<noteq> 120"
proof -
  let ?b = "\<lparr>channelData = cd, sampleRate = 44100\<rparr>"
  let ?best = "best_interval (group_intervals (intervals_of (find_peaks ?b)))"
  show ?thesis
  proof (cases "length (find_peaks ?b) < 10 \<or> ?best = 0")
    case True
    then show ?thesis by (auto simp add: detectBPM_def Let_def)
  next
    case False
    then have "?best \<in> quantize ` set (intervals_of (find_peaks ?b))"
      using best_interval_quantized [of "intervals_of (find_peaks ?b)"] by simp
    then obtain v where v: "v \<in> set (intervals_of (find_peaks ?b))" and best: "?best = quantize v"
      by blast
    have "sorted_wrt (\<lambda>p q. p + (44100 div 4 + step) \<le> q) (find_peaks ?b)"
      using peak_loop_gap [of 44100 "[]" 0 cd] by (simp add: find_peaks_def add.assoc)
    from intervals_of_gap [OF this v] have "11029 \<le> v" by (simp add: step_def)
    define q where "q = (v + 50) div 100"
    have q: "110 \<le> q" using \<open>11029 \<le> v\<close> unfolding q_def by linarith
    have bq: "?best = q * 100" by (simp add: best quantize_div q_def)
    have "q * 100 \<noteq> 11025" by presburger
    then have ne: "real_of_int q * 100 \<noteq> 11025"
      by (metis of_int_mult of_int_numeral of_int_eq_iff)
    have lt: "(60 * 44100) / (real_of_int q * 100 * 4) < 70"
      using q by (simp add: field_simps)
    have "(60 * 44100) / (real_of_int q * 100 * 4) * 2 \<noteq> 120"
      using q ne by (simp add: field_simps)
    with False lt show ?thesis
      by (simp add: detectBPM_def Let_def bq step_def)
  qed
qed

text \<open>
  Claim C3 (the code departs from it). For the click track with clicks of 1 ms the estimate
  is \<open>1323 / 22\<close>: not zero, below 70, and not rounded (its rounding is 60). The tempo
  30.07 is doubled once and returned by the early \<^verbatim>\<open>return bpm * 2\<close>, which neither
  reaches the range from 70 to 180 nor rounds.
\<close>

theorem estimate_outside_range:
  "detectBPM (click_track 44) = 1323 / 22 \<and>
   detectBPM (click_track 44) \<noteq> 0 \<and>
   detectBPM (click_track 44) < 70 \<and>
   real_of_int (Math_round (detectBPM (click_track 44))) = 60 \<and>
   real_of_int (Math_round (detectBPM (click_track 44))) \<noteq> detectBPM (click_track 44)"
proof -
  have bpm: "detectBPM (click_track 44) = 1323 / 22" by (rule click_bpm) simp_all
  have "Math_round (1323 / 22) = 60" unfolding Math_round_def by linarith
  then show ?thesis unfolding bpm by simp
qed

text \<open>
  Claim C4 (the code departs from it). The click track is ten seconds of mono audio at
  44.1 kHz with a click every half second and no other sample above the threshold. Its
  estimate is \<open>1323 / 22\<close>, not 120: the interval between peaks is counted in samples of
  the buffer and is divided by the stride once more. No buffer at 44.1 kHz has the
  estimate 120.
\<close>

theorem click_track_estimate:
  "length (channelData (click_track 44)) = 10 * sampleRate (click_track 44) \<and>
   sampleRate (click_track 44) = 44100 \<and>
   detectBPM (click_track 44) = 1323 / 22 \<and>
   detectBPM (click_track 44) \<noteq> 120 \<and>
   detectBPM \<lparr>channelData = cd, sampleRate = 44100\<rparr> \<noteq> 120"
proof -
  have bpm: "detectBPM (click_track 44) = 1323 / 22" by (rule click_bpm) simp_all
  show ?thesis unfolding bpm using never_120_at_44100 [of cd] by (simp add: click_length click_rate)
qed

section \<open>The voice unit\<close>

lemmas voice_defs =
  dispatch_state_change_def resetFX_def preset_overlay_def setPreset_def VoiceEngine_nodes_def
  VoiceEngine_new_def startMic_def startRecording_def stopRecording_def play_def stop_def
  loadFile_def toggleLoop_def setVolume_def setPlaybackRate_def








text \<open>
  In every state, \<^verbatim>\<open>stop()\<close> and a successful \<^verbatim>\<open>loadFile\<close> dispatch one event: neither
  has a guard on the state.
\<close>

lemma stop_always_dispatches:
  "state_changes (stop v) = state_changes v + 1 \<and>
   state_changes (loadFile True v) = state_changes v + 1"
  by (simp add: stop_def loadFile_def dispatch_state_change_def)




text \<open>
  Claim C2 (the code departs from it). \<^verbatim>\<open>resetFX\<close> does not write the frequency of the
  vibrato and the feedback of the delay. Both are 0 in the constructed unit; after preset 4
  the frequency stays 50 and after preset 5 the feedback stays 0.6 under preset 1, whose
  overlay names neither.
\<close>

theorem resetFX_misses_parameters:
  "vibrato_frequency VoiceEngine_new = 0 \<and>
   vibrato_frequency (setPreset 1 (setPreset 4 VoiceEngine_new)) = 50 \<and>
   delay_feedback VoiceEngine_new = 0 \<and>
   delay_feedback (setPreset 1 (setPreset 5 VoiceEngine_new)) = 6 / 10"
  by (simp add: voice_defs)

text \<open>
  What does hold: preset 1 leaves the three bands of the equalizer at 0 and sets pitch and
  distortion, and the eleven parameters that \<^verbatim>\<open>resetFX\<close> writes depend on the selected
  preset only.
\<close>

lemma setPreset_1:
  "eq_high (setPreset 1 v) = 0 \<and> eq_mid (setPreset 1 v) = 0 \<and> eq_low (setPreset 1 v) = 0 \<and>
   pitchShift_pitch (setPreset 1 v) = - 12 \<and> distortion_distortion (setPreset 1 v) = 2 / 10 \<and>
   bitCrusher_bits (setPreset 1 v) = 16 \<and> vibrato_depth (setPreset 1 v) = 0 \<and>
   reverb_wet (setPreset 1 v) = 2 / 10 \<and> reverb_decay (setPreset 1 v) = 15 / 10 \<and>
   delay_wet (setPreset 1 v) = 0 \<and> player_playbackRate (setPreset 1 v) = 1"
  by (simp add: voice_defs)

lemma setPreset_reset_fields:
  "pitchShift_pitch (setPreset index v) = pitchShift_pitch (setPreset index v') \<and>
   distortion_distortion (setPreset index v) = distortion_distortion (setPreset index v') \<and>
   bitCrusher_bits (setPreset index v) = bitCrusher_bits (setPreset index v') \<and>
   vibrato_depth (setPreset index v) = vibrato_depth (setPreset index v') \<and>
   reverb_wet (setPreset index v) = reverb_wet (setPreset index v') \<and>
   reverb_decay (setPreset index v) = reverb_decay (setPreset index v') \<and>
   delay_wet (setPreset index v) = delay_wet (setPreset index v') \<and>
   eq_high (setPreset index v) = eq_high (setPreset index v') \<and>
   eq_mid (setPreset index v) = eq_mid (setPreset index v') \<and>
   eq_low (setPreset index v) = eq_low (setPreset index v') \<and>
   player_playbackRate (setPreset index v) = player_playbackRate (setPreset index v')"
  by (simp add: voice_defs)

section \<open>Decks and the master tempo\<close>

lemma deck_put_deck: "deck i (put_deck j d e) = (if i = j then d else deck i e)"
  by (cases i; cases j) simp_all

lemma masterBpm_put_deck: "masterBpm (put_deck i d e) = masterBpm e"
  by (cases i) simp_all

lemma masterBpm_syncToMaster: "masterBpm (syncToMaster i e) = masterBpm e"
  by (simp add: syncToMaster_def masterBpm_put_deck)

lemma deck_syncToMaster:
  "deck j (syncToMaster i e) =
     (if j = i \<and> bpm (deck i e) > 0 \<and> masterBpm e > 0
      then setRate (masterBpm e / bpm (deck i e)) (deck i e) else deck j e)"
  by (simp add: syncToMaster_def deck_put_deck)

lemma masterBpm_setMasterBpm: "masterBpm (setMasterBpm b e) = b"
  by (simp add: setMasterBpm_def Let_def masterBpm_syncToMaster)

lemma deck_setMasterBpm:
  "deck i (setMasterBpm b e) =
     (if isSynced (deck i e) \<and> bpm (deck i e) > 0 \<and> b > 0
      then setRate (b / bpm (deck i e)) (deck i e) else deck i e)"
  by (cases i) (simp_all add: setMasterBpm_def Let_def syncToMaster_def setRate_def)

lemma masterBpm_toggleSync: "masterBpm (toggleSync i e) = masterBpm e"
  by (simp add: toggleSync_def Let_def masterBpm_syncToMaster masterBpm_put_deck)

lemma masterBpm_playPause: "masterBpm (playPause i started start_ok e) = masterBpm e"
  by (simp add: playPause_def Let_def masterBpm_syncToMaster masterBpm_put_deck)

lemma masterBpm_loadTrack:
  "masterBpm (loadTrack i loaded e) =
     (case loaded of None \<Rightarrow> masterBpm e
      | Some buffer \<Rightarrow>
          if masterBpm e = 120 \<and> detectBPM buffer > 0 then detectBPM buffer else masterBpm e)"
  by (simp add: loadTrack_def Let_def masterBpm_setMasterBpm masterBpm_put_deck deck_put_deck
      split: option.split)

lemma engine_run_snoc: "engine_run (ops @ [x]) = engine_step (engine_run ops) x"
  by (simp add: engine_run_def)

lemma engine_step_positive:
  "op_ok x \<Longrightarrow> 0 < masterBpm e \<Longrightarrow> 0 < masterBpm (engine_step e x)"
  by (cases x)
    (simp_all add: masterBpm_setMasterBpm masterBpm_loadTrack masterBpm_playPause
      masterBpm_toggleSync masterBpm_put_deck split: option.split)

text \<open>
  The master tempo starts at 120 and is only ever set to a positive tempo, by the mixer
  under its contract or by a deck that adopts a positive estimate.
\<close>

lemma masterBpm_positive: "list_all op_ok ops \<Longrightarrow> 0 < masterBpm (engine_run ops)"
proof (induction ops rule: rev_induct)
  case Nil
  show ?case by (simp add: engine_run_def AudioEngine_new_def)
next
  case (snoc x ops)
  then show ?case by (simp add: engine_run_snoc engine_step_positive)
qed

lemmas engine_defs =
  engine_run_def AudioEngine_new_def Deck_new_def loadTrack_def setMasterBpm_def
  syncToMaster_def toggleSync_def setRate_def Let_def

text \<open>
  Claim C1. After \<^verbatim>\<open>setMasterBpm(b)\<close> with \<open>b > 0\<close>, in any state of the engine, every
  deck that is synced and has a positive tempo plays at the rate master tempo / deck tempo.
  \<^verbatim>\<open>toggleSync()\<close> on a deck that is not synced and has a positive tempo makes it synced at
  that rate, provided the master tempo is positive; and the master tempo is positive in
  every state the engine reaches from its construction.
\<close>

theorem sync_sets_rate:
  "(0 < b \<longrightarrow> isSynced (deck i (setMasterBpm b e)) \<longrightarrow> 0 < bpm (deck i (setMasterBpm b e)) \<longrightarrow>
      playbackRate (deck i (setMasterBpm b e)) =
        masterBpm (setMasterBpm b e) / bpm (deck i (setMasterBpm b e))) \<and>
   (0 < masterBpm e \<longrightarrow> \<not> isSynced (deck i e) \<longrightarrow> 0 < bpm (deck i e) \<longrightarrow>
      isSynced (deck i (toggleSync i e)) \<and>
      playbackRate (deck i (toggleSync i e)) =
        masterBpm (toggleSync i e) / bpm (deck i (toggleSync i e))) \<and>
   (list_all op_ok ops \<longrightarrow> 0 < masterBpm (engine_run ops))"
proof -
  have master: "0 < b \<Longrightarrow> isSynced (deck i (setMasterBpm b e)) \<Longrightarrow>
      0 < bpm (deck i (setMasterBpm b e)) \<Longrightarrow>
      playbackRate (deck i (setMasterBpm b e)) =
        masterBpm (setMasterBpm b e) / bpm (deck i (setMasterBpm b e))"
    by (simp add: masterBpm_setMasterBpm deck_setMasterBpm setRate_def split: if_splits)
  have toggle: "0 < masterBpm e \<Longrightarrow> \<not> isSynced (deck i e) \<Longrightarrow> 0 < bpm (deck i e) \<Longrightarrow>
      isSynced (deck i (toggleSync i e)) \<and>
      playbackRate (deck i (toggleSync i e)) =
        masterBpm (toggleSync i e) / bpm (deck i (toggleSync i e))"
    by (simp add: toggleSync_def Let_def deck_put_deck deck_syncToMaster masterBpm_syncToMaster
        masterBpm_put_deck setRate_def)
  show ?thesis using master toggle masterBpm_positive [of ops] by blast
qed

text \<open>
  Witness for C1: deck A loads the click track and is synced, then the master tempo is set
  to 128; deck B loads the click track, the master tempo is set to 128, then B is synced.
\<close>

theorem sync_sets_rate_witness:
  "list_all op_ok [LoadTrack A (Some (click_track 44)), ToggleSync A] \<and>
   isSynced (deck A (setMasterBpm 128
     (engine_run [LoadTrack A (Some (click_track 44)), ToggleSync A]))) \<and>
   0 < bpm (deck A (setMasterBpm 128
     (engine_run [LoadTrack A (Some (click_track 44)), ToggleSync A]))) \<and>
   playbackRate (deck A (setMasterBpm 128
     (engine_run [LoadTrack A (Some (click_track 44)), ToggleSync A]))) = 2816 / 1323 \<and>
   list_all op_ok [LoadTrack B (Some (click_track 44)), SetMasterBpm 128] \<and>
   0 < masterBpm (engine_run [LoadTrack B (Some (click_track 44)), SetMasterBpm 128]) \<and>
   \<not> isSynced (deck B (engine_run [LoadTrack B (Some (click_track 44)), SetMasterBpm 128])) \<and>
   0 < bpm (deck B (engine_run [LoadTrack B (Some (click_track 44)), SetMasterBpm 128])) \<and>
   isSynced (deck B (toggleSync B
     (engine_run [LoadTrack B (Some (click_track 44)), SetMasterBpm 128]))) \<and>
   playbackRate (deck B (toggleSync B
     (engine_run [LoadTrack B (Some (click_track 44)), SetMasterBpm 128]))) = 2816 / 1323"
proof -
  let ?ops1 = "[LoadTrack A (Some (click_track 44)), ToggleSync A]"
  let ?ops2 = "[LoadTrack B (Some (click_track 44)), SetMasterBpm 128]"
  have ok: "list_all op_ok ?ops1" "list_all op_ok ?ops2" by simp_all
  have e1: "isSynced (deck A (setMasterBpm 128 (engine_run ?ops1)))"
    "0 < bpm (deck A (setMasterBpm 128 (engine_run ?ops1)))"
    "masterBpm (setMasterBpm 128 (engine_run ?ops1)) = 128"
    "bpm (deck A (setMasterBpm 128 (engine_run ?ops1))) = 1323 / 22"
    by (simp_all add: engine_defs click_bpm_44)
  have e2: "\<not> isSynced (deck B (engine_run ?ops2))"
    "0 < bpm (deck B (engine_run ?ops2))"
    "masterBpm (toggleSync B (engine_run ?ops2)) = 128"
    "bpm (deck B (toggleSync B (engine_run ?ops2))) = 1323 / 22"
    by (simp_all add: engine_defs click_bpm_44)
  have pos: "0 < masterBpm (engine_run ?ops2)"
    using sync_sets_rate [of 128 A "engine_run ?ops2" ?ops2] ok(2) by blast
  have "playbackRate (deck A (setMasterBpm 128 (engine_run ?ops1))) =
      masterBpm (setMasterBpm 128 (engine_run ?ops1)) /
      bpm (deck A (setMasterBpm 128 (engine_run ?ops1)))"
    using sync_sets_rate [of 128 A "engine_run ?ops1" ?ops1] e1(1,2) by simp
  then have "playbackRate (deck A (setMasterBpm 128 (engine_run ?ops1))) = 128 / (1323 / 22)"
    by (simp only: e1(3,4))
  then have r1: "playbackRate (deck A (setMasterBpm 128 (engine_run ?ops1))) = 2816 / 1323"
    by simp
  have t: "isSynced (deck B (toggleSync B (engine_run ?ops2))) \<and>
      playbackRate (deck B (toggleSync B (engine_run ?ops2))) =
      masterBpm (toggleSync B (engine_run ?ops2)) / bpm (deck B (toggleSync B (engine_run ?ops2)))"
    using sync_sets_rate [of 128 B "engine_run ?ops2" ?ops2] pos e2(1,2) by blast
  then have "playbackRate (deck B (toggleSync B (engine_run ?ops2))) = 128 / (1323 / 22)"
    by (simp only: e2(3,4))
  then have r2: "playbackRate (deck B (toggleSync B (engine_run ?ops2))) = 2816 / 1323"
    by simp
  show ?thesis using ok pos e1(1,2) e2(1,2) r1 t r2 by simp
qed

text \<open>
  The equality is established by these two operations, not kept by all: a load on a synced
  deck while the master tempo is not 120 stores a new tempo and leaves the rate as it was,
  until the next change of the master tempo.
\<close>

lemma loadTrack_keeps_rate:
  "masterBpm e \<noteq> 120 \<Longrightarrow>
   playbackRate (deck i (loadTrack i (Some buffer) e)) = playbackRate (deck i e) \<and>
   isSynced (deck i (loadTrack i (Some buffer) e)) = isSynced (deck i e)"
  by (simp add: loadTrack_def Let_def masterBpm_put_deck deck_put_deck)

lemma loads_master:
  "masterBpm (foldl engine_step e (map (\<lambda>(i, buffer). LoadTrack i (Some buffer)) loads)) =
     (if masterBpm e = 120
      then (case find (\<lambda>b. 0 < b \<and> b \<noteq> 120) (map (detectBPM \<circ> snd) loads) of
              None \<Rightarrow> 120 | Some b \<Rightarrow> b)
      else masterBpm e)"
proof (induction loads arbitrary: e)
  case Nil
  show ?case by simp
next
  case (Cons l loads)
  obtain i buffer where l: "l = (i, buffer)" by (cases l)
  show ?case
    by (simp add: l Cons.IH masterBpm_loadTrack comp_def)
qed

text \<open>
  Claim C10, as amended. The adoption is keyed on the value of the master tempo, not on
  which load it is. A successful \<^verbatim>\<open>loadTrack\<close> stores the estimate in the deck. If the
  master tempo is 120 and the estimate is positive, the master tempo becomes the estimate; if
  the master tempo is not 120 or the estimate is not positive, and when the load fails, the
  master tempo is unchanged. In a sequence of loads alone on a fresh engine the master tempo
  ends as the first estimate that is positive and not 120, or stays 120 when there is none.
\<close>

theorem loadTrack_adopts_tempo:
  "(masterBpm e = 120 \<longrightarrow> 0 < detectBPM buffer \<longrightarrow>
      masterBpm (loadTrack i (Some buffer) e) = detectBPM buffer) \<and>
   (masterBpm e \<noteq> 120 \<or> \<not> 0 < detectBPM buffer \<longrightarrow>
      masterBpm (loadTrack i (Some buffer) e) = masterBpm e) \<and>
   bpm (deck i (loadTrack i (Some buffer) e)) = detectBPM buffer \<and>
   masterBpm (loadTrack i None e) = masterBpm e \<and>
   masterBpm (engine_run (map (\<lambda>(i, buffer). LoadTrack i (Some buffer)) loads)) =
     (case find (\<lambda>b. 0 < b \<and> b \<noteq> 120) (map (detectBPM \<circ> snd) loads) of
        None \<Rightarrow> 120 | Some b \<Rightarrow> b)"
proof -
  have stored: "bpm (deck i (loadTrack i (Some buffer) e)) = detectBPM buffer"
    by (simp add: loadTrack_def Let_def deck_put_deck deck_setMasterBpm setRate_def)
  have run: "masterBpm (engine_run (map (\<lambda>(i, buffer). LoadTrack i (Some buffer)) loads)) =
     (case find (\<lambda>b. 0 < b \<and> b \<noteq> 120) (map (detectBPM \<circ> snd) loads) of
        None \<Rightarrow> 120 | Some b \<Rightarrow> b)"
    unfolding engine_run_def by (simp add: loads_master AudioEngine_new_def)
  show ?thesis using stored run by (simp add: masterBpm_loadTrack)
qed

text \<open>
  Witness for C10: the click track on a fresh engine, the click track after the master
  tempo was set to 128, an empty buffer, and three loads in a row.
\<close>

theorem loadTrack_adopts_tempo_witness:
  "masterBpm AudioEngine_new = 120 \<and>
   0 < detectBPM (click_track 44) \<and>
   masterBpm (loadTrack A (Some (click_track 44)) AudioEngine_new) = 1323 / 22 \<and>
   masterBpm (setMasterBpm 128 AudioEngine_new) \<noteq> 120 \<and>
   masterBpm (loadTrack B (Some (click_track 44)) (setMasterBpm 128 AudioEngine_new)) = 128 \<and>
   \<not> 0 < detectBPM \<lparr>channelData = [], sampleRate = 44100\<rparr> \<and>
   masterBpm (loadTrack A (Some \<lparr>channelData = [], sampleRate = 44100\<rparr>) AudioEngine_new) = 120 \<and>
   masterBpm (engine_run (map (\<lambda>(i, buffer). LoadTrack i (Some buffer))
     [(A, \<lparr>channelData = [], sampleRate = 44100\<rparr>), (B, click_track 44), (A, tie_track)])) =
     1323 / 22"
proof -
  let ?silent = "\<lparr>channelData = [], sampleRate = 44100\<rparr>"
  have silent: "detectBPM ?silent = 0"
    by (simp add: detectBPM_def find_peaks_def peak_loop_Nil)
  have a: "masterBpm AudioEngine_new = 120" "masterBpm (setMasterBpm 128 AudioEngine_new) \<noteq> 120"
    by (simp_all add: engine_defs)
  have pos: "0 < detectBPM (click_track 44)" by (simp add: click_bpm_44)
  have l1: "masterBpm (loadTrack A (Some (click_track 44)) AudioEngine_new) =
      detectBPM (click_track 44)"
    using loadTrack_adopts_tempo [of AudioEngine_new "click_track 44" A "[]"] a(1) pos by simp
  have l2: "masterBpm (loadTrack B (Some (click_track 44)) (setMasterBpm 128 AudioEngine_new)) =
      masterBpm (setMasterBpm 128 AudioEngine_new)"
    using loadTrack_adopts_tempo [of "setMasterBpm 128 AudioEngine_new" "click_track 44" B "[]"]
      a(2) by simp
  have l3: "masterBpm (loadTrack A (Some ?silent) AudioEngine_new) = masterBpm AudioEngine_new"
    using loadTrack_adopts_tempo [of AudioEngine_new ?silent A "[]"] silent by simp
  have l4: "masterBpm (engine_run (map (\<lambda>(i, buffer). LoadTrack i (Some buffer))
      [(A, ?silent), (B, click_track 44), (A, tie_track)])) = 1323 / 22"
    using loadTrack_adopts_tempo [of AudioEngine_new ?silent A
        "[(A, ?silent), (B, click_track 44), (A, tie_track)]"]
    by (simp add: silent click_bpm_44 tie_bpm)
  show ?thesis
    unfolding l1 l2 l3 l4 click_bpm_44 silent using a by (simp add: masterBpm_setMasterBpm)
qed

text \<open>
  Counterexample to C10 as stated, which lets the adoption fire on the first such load only:
  deck A loads the click track and the master tempo becomes its estimate; the master tempo
  is set back to 120, as the tempo knob can; deck B loads the second test signal and the
  master tempo becomes an estimate again.
\<close>

theorem adoption_fires_again_counterexample:
  "masterBpm (engine_run [LoadTrack A (Some (click_track 44))]) = 1323 / 22 \<and>
   masterBpm (engine_run [LoadTrack A (Some (click_track 44)), SetMasterBpm 120]) = 120 \<and>
   bpm (deck A (engine_run [LoadTrack A (Some (click_track 44)), SetMasterBpm 120])) = 1323 / 22 \<and>
   masterBpm (engine_run
     [LoadTrack A (Some (click_track 44)), SetMasterBpm 120, LoadTrack B (Some tie_track)]) =
     1323 / 22 \<and>
   list_all op_ok
     [LoadTrack A (Some (click_track 44)), SetMasterBpm 120, LoadTrack B (Some tie_track)]"
  by (simp add: engine_defs click_bpm_44 tie_bpm)

end
